theory Spec2Isabelle
  imports Main
begin

section \<open>JavaScript values and the operations the bot applies to them\<close>

text \<open>
  A decoded JSON document, and every value the bot reads out of one, is a \<open>jsval\<close>.
  \<open>JUndefined\<close> is what reading an absent property gives. Numbers are integers: every
  numeric field the bot reads (ids, array lengths, HTTP statuses) is one.
  A string is the list of its UTF-16 code units; the model has the code units below 256.
  An object is an association list in document order; \<open>JSON.parse\<close> keeps the last of
  two equal keys, so a property is looked up from the end.
  \<open>JFun nm len\<close> is the built-in function of that name and \<open>length\<close>: no document
  contains one, but reading a method of a value gives one.
\<close>

datatype jsval =
    JUndefined
  | JNull
  | JBool bool
  | JNum int
  | JStr string
  | JArr "jsval list"
  | JObj "(string \<times> jsval) list"
  | JFun string nat

text \<open>What the bot can throw: the runtime's errors, a rejected \<open>fetch\<close>, a body that is
  not JSON, \<open>new Error(msg)\<close>, and a statement the local store rejects.\<close>

datatype exn =
    TypeError
  | ReferenceError
  | SyntaxError
  | FetchError
  | Error string
  | SqliteError

text \<open>
  A number as \<open>parseInt\<close> gives it: NaN, an infinity, or a double whose value is an
  integer. \<open>bitlen\<close> is the length of the binary notation and \<open>pow\<close> the power with an
  integer exponent. \<open>round_double\<close> is the conversion of a natural number to the nearest
  double, ties to the even significand (53 bits); \<open>to_double\<close> is that conversion on the
  integers, an infinity from \<open>2^1024\<close> on.
\<close>

datatype number = NaN | PosInf | NegInf | Fin int

function bitlen :: "int \<Rightarrow> int" where
  "bitlen n = (if n \<le> 0 then 0 else 1 + bitlen (n div 2))"
  by auto
termination by (relation "measure nat") auto

declare bitlen.simps [simp del]

function pow :: "int \<Rightarrow> int \<Rightarrow> int" where
  "pow b k = (if k \<le> 0 then 1 else b * pow b (k - 1))"
  by auto
termination by (relation "measure (\<lambda>(b, k). nat k)") auto

declare pow.simps [simp del]

definition round_double :: "int \<Rightarrow> int" where
  "round_double a =
     (let b = bitlen a
      in if b \<le> 53 then a
         else (let u = pow 2 (b - 53); q = a div u; r = a mod u
               in (if 2 * r < u \<or> (2 * r = u \<and> even q) then q else q + 1) * u))"

definition to_double :: "int \<Rightarrow> number" where
  "to_double n =
     (let m = round_double \<bar>n\<bar>
      in if 1024 < bitlen m then (if n < 0 then NegInf else PosInf)
         else Fin (if n < 0 then - m else m))"

text \<open>
  \<open>String(d)\<close> of a double \<open>d\<close> is built on the shortest decimal that converts back to
  \<open>d\<close>, the nearest to \<open>d\<close> of that length, the even one of two equally near.
  \<open>nearest_at a j\<close> is that decimal among the multiples of \<open>10^j\<close>, if there is one;
  \<open>shortest a j\<close> tries \<open>j\<close> trailing zeros, then fewer. \<open>declen\<close> is the length of
  the decimal notation.
\<close>

function declen :: "int \<Rightarrow> int" where
  "declen n = (if n \<le> 0 then 0 else 1 + declen (n div 10))"
  by auto
termination by (relation "measure nat") auto

declare declen.simps [simp del]

definition nearest_at :: "int \<Rightarrow> int \<Rightarrow> int option" where
  "nearest_at a j =
     (let p = pow 10 j; down = (a div p) * p; up = down + p;
          d_ok = (round_double down = a); u_ok = (round_double up = a)
      in if d_ok \<and> u_ok then
           Some (if a - down < up - a \<or> (a - down = up - a \<and> even (a div p)) then down else up)
         else if d_ok then Some down
         else if u_ok then Some up
         else None)"

function shortest :: "int \<Rightarrow> int \<Rightarrow> int" where
  "shortest a j =
     (if j \<le> 0 then a
      else (case nearest_at a j of Some c \<Rightarrow> c | None \<Rightarrow> shortest a (j - 1)))"
  by auto
termination by (relation "measure (\<lambda>(a, j). nat j)") auto

declare shortest.simps [simp del]

definition first_digit :: "int \<Rightarrow> int" where
  "first_digit c = c div pow 10 (declen c - 1)"

text \<open>Truthiness, as \<open>if (v)\<close>, \<open>!v\<close> and \<open>a && b\<close> test it.\<close>

fun truthy :: "jsval \<Rightarrow> bool" where
  "truthy JUndefined = False"
| "truthy JNull = False"
| "truthy (JBool b) = b"
| "truthy (JNum n) = (n \<noteq> 0)"
| "truthy (JStr s) = (s \<noteq> [])"
| "truthy (JArr xs) = True"
| "truthy (JObj kvs) = True"
| "truthy (JFun nm len) = True"

text \<open>
  Property access \<open>v.k\<close>, for the names the bot reads (\<open>error\<close>, \<open>messages\<close>, \<open>name\<close>,
  \<open>query\<close>, \<open>tokens\<close>, \<open>logintoken\<close>, \<open>csrftoken\<close>, \<open>login\<close>, \<open>result\<close>, \<open>continue\<close>,
  \<open>uccontinue\<close>, \<open>usercontribs\<close>, \<open>title\<close>, \<open>claims\<close>, \<open>mainsnak\<close>, \<open>datavalue\<close>,
  \<open>value\<close>, \<open>id\<close>, \<open>search\<close>, \<open>length\<close>, \<open>0\<close> and the property ids): a TypeError on
  \<open>undefined\<close> and \<open>null\<close>; the stored value or \<open>undefined\<close> on an object; \<open>length\<close> on
  arrays and strings; \<open>search\<close> on a string is the method \<open>String.prototype.search\<close>, a
  function of length 1; a function has its \<open>name\<close> and its \<open>length\<close>; \<open>undefined\<close>
  otherwise, none of the other names being a member of a prototype.
\<close>

fun getprop :: "jsval \<Rightarrow> string \<Rightarrow> exn + jsval" where
  "getprop JUndefined k = Inl TypeError"
| "getprop JNull k = Inl TypeError"
| "getprop (JObj kvs) k = Inr (case map_of (rev kvs) k of None \<Rightarrow> JUndefined | Some v \<Rightarrow> v)"
| "getprop (JArr xs) k = Inr (if k = ''length'' then JNum (int (length xs)) else JUndefined)"
| "getprop (JStr s) k =
     Inr (if k = ''length'' then JNum (int (length s))
          else if k = ''search'' then JFun ''search'' 1 else JUndefined)"
| "getprop (JFun nm len) k =
     Inr (if k = ''length'' then JNum (int len) else if k = ''name'' then JStr nm else JUndefined)"
| "getprop (JBool b) k = Inr JUndefined"
| "getprop (JNum n) k = Inr JUndefined"

text \<open>Sequencing of steps that may throw.\<close>

definition bindE :: "exn + 'a \<Rightarrow> ('a \<Rightarrow> exn + 'b) \<Rightarrow> exn + 'b" where
  "bindE m f = (case m of Inl e \<Rightarrow> Inl e | Inr x \<Rightarrow> f x)"

text \<open>A property path \<open>v.k1.k2...\<close>.\<close>

fun path :: "jsval \<Rightarrow> string list \<Rightarrow> exn + jsval" where
  "path v [] = Inr v"
| "path v (k # ks) = bindE (getprop v k) (\<lambda>w. path w ks)"

text \<open>\<open>messages.find(({name}) => name === n)\<close> on the elements of an array: the first
  element whose \<open>name\<close> is the string \<open>n\<close>, \<open>undefined\<close> when there is none; destructuring an
  element that is \<open>null\<close> throws.\<close>

fun find_name :: "string \<Rightarrow> jsval list \<Rightarrow> exn + jsval" where
  "find_name n [] = Inr JUndefined"
| "find_name n (m # ms) =
     bindE (getprop m ''name'') (\<lambda>v. if v = JStr n then Inr m else find_name n ms)"

text \<open>The method call \<open>v.find(...)\<close>: only an array has the method; on any other value
  that passed the truthiness test before it, \<open>v.find\<close> is not a function.\<close>

fun messages_find :: "jsval \<Rightarrow> string \<Rightarrow> exn + jsval" where
  "messages_find (JArr ms) n = find_name n ms"
| "messages_find v n = Inl TypeError"

section \<open>The remote side, and what a run does\<close>

text \<open>
  One call of \<open>fetch\<close> either rejects (connection-level failure) or resolves to a response
  with a status and a body; the body is \<open>None\<close> when \<open>response.json()\<close> rejects.
  The remote side of a run is the list of the outcomes of its successive \<open>fetch\<close> calls:
  nothing is assumed about how an outcome depends on the request. A call made when the
  list is used up never settles: the result is \<open>Pending\<close>.
\<close>

datatype outcome = Rejected | Resolved nat "jsval option"

definition ok :: "nat \<Rightarrow> bool" where
  "ok status = (200 \<le> status \<and> status \<le> 299)"

text \<open>
  The requests of the bot, by what they ask for; all go to the one endpoint of the remote
  interface. \<open>LoginReq t\<close> is the login form with the login token \<open>t\<close>;
  \<open>UserContribsReq c\<close> is the history query with \<open>uccontinue = c\<close> (\<open>null\<close>: not set);
  \<open>GetClaimsReq p e\<close> is \<open>wbgetclaims\<close> for the property \<open>p\<close> of the entity \<open>e\<close>;
  \<open>SearchReq p n q\<close> is the search \<open>haswbstatement:p=n -haswbstatement:q\<close> with
  \<open>srlimit = 1\<close>; \<open>CreateClaimReq e p i t\<close> is the \<open>wbcreateclaim\<close> form for the entity
  \<open>e\<close>, the property \<open>p\<close>, the value \<open>"i"\<close> and the token \<open>t\<close>.
\<close>

datatype request =
    LoginTokenReq
  | LoginReq jsval
  | UserContribsReq jsval
  | CsrfTokenReq
  | GetClaimsReq string jsval
  | SearchReq string int string
  | CreateClaimReq jsval string int jsval

text \<open>A template literal is the list of its parts; \<open>Pct i n\<close> stands for the percentage
  \<open>Math.floor((i / n) * 100)\<close>, which is only ever printed.\<close>

datatype part = Txt string | Val jsval | Dec int | Msg exn | Pct nat nat

text \<open>
  What a run does, in order: a request sent with \<open>fetch\<close> or with \<open>cookieFetch\<close>, a wait
  of so many milliseconds, a line on the console, a call of \<open>retryFetch\<close> or
  \<open>backoffFetch\<close> from outside, an insert into \<open>map\<close> or into the table of the foreign
  ids without entity.
\<close>

datatype event =
    Fetch request
  | CookieFetch request
  | Timeout nat
  | ConsoleLog "part list"
  | ConsoleError "part list"
  | RetryFetch request
  | BackoffFetch request
  | InsertMap jsval number
  | InsertOther int

datatype 'a res = Ok 'a | Throw exn | Pending

section \<open>The resilient transport (part_001, both variants)\<close>

text \<open>What one pass through the body of a retrying function ends with: \<open>return data\<close>,
  or \<open>return f(input, options, n)\<close>.\<close>

datatype action = Return jsval | Retry nat

text \<open>
  The log line of the branch \<open>!response.ok\<close> reads \<open>repsonse.statusText\<close>. The
  identifier \<open>repsonse\<close> is declared nowhere in the file, so evaluating the template literal
  throws a ReferenceError before anything is printed.
\<close>

definition repsonse_statusText :: "exn + jsval" where
  "repsonse_statusText = Inl ReferenceError"

definition request_error_line :: "nat \<Rightarrow> exn + part list" where
  "request_error_line status =
     bindE repsonse_statusText
       (\<lambda>t. Inr [Txt ''Request Error: '', Dec (int status), Txt '' '', Val t])"

definition retry_lines :: "nat \<Rightarrow> event list" where
  "retry_lines seconds =
     [ConsoleLog [Txt ''Retrying in '', Dec (int seconds), Txt '' seconds''], Timeout (seconds * 1000)]"

text \<open>The \<open>catch (e)\<close> block of \<open>backoffFetch\<close> and \<open>retryFetch\<close>.\<close>

definition catch_block :: "exn \<Rightarrow> nat \<Rightarrow> event list \<times> action" where
  "catch_block e iteration =
     (let seconds = 2 ^ iteration
      in (ConsoleLog [Txt ''Request Error: '', Msg e] # retry_lines seconds, Retry (iteration + 1)))"

text \<open>The decoded body in \<open>retryFetch\<close>: the error envelope.\<close>

definition retryFetch_data :: "jsval \<Rightarrow> event list \<times> (exn + action)" where
  "retryFetch_data data =
     (case getprop data ''error'' of
        Inl e \<Rightarrow> ([], Inl e)
      | Inr err \<Rightarrow>
          if truthy err then
            (case getprop err ''messages'' of
               Inl e \<Rightarrow> ([], Inl e)
             | Inr messages \<Rightarrow>
                 if truthy messages then
                   (case messages_find messages ''actionthrottledtext'' of
                      Inl e \<Rightarrow> ([], Inl e)
                    | Inr throttled \<Rightarrow>
                        if truthy throttled then
                          ([ConsoleLog [Txt ''Request Throttled, Retrying in 60 seconds''],
                            Timeout (1000 * 60)], Inr (Retry 0))
                        else
                          (case messages_find messages ''no-permission'' of
                             Inl e \<Rightarrow> ([], Inl e)
                           | Inr denied \<Rightarrow>
                               if truthy denied then
                                 ([ConsoleError [Txt ''Permission Denied!'']], Inr (Return data))
                               else ([ConsoleError [Val err]], Inr (Return data))))
                 else ([ConsoleError [Val err]], Inr (Return data)))
          else ([], Inr (Return data)))"

text \<open>The \<open>try\<close> block of \<open>retryFetch\<close>, given the outcome of its \<open>cookieFetch\<close>.\<close>

definition retryFetch_try :: "outcome \<Rightarrow> nat \<Rightarrow> event list \<times> (exn + action)" where
  "retryFetch_try out iteration =
     (case out of
        Rejected \<Rightarrow> ([], Inl FetchError)
      | Resolved status body \<Rightarrow>
          (let seconds = 2 ^ iteration;
               decode = (case body of None \<Rightarrow> ([], Inl SyntaxError)
                         | Some data \<Rightarrow> retryFetch_data data)
           in if \<not> ok status then
                (case request_error_line status of
                   Inl e \<Rightarrow> ([], Inl e)
                 | Inr line \<Rightarrow>
                     if status \<ge> 500 then
                       (ConsoleLog line # retry_lines seconds, Inr (Retry (iteration + 1)))
                     else (case decode of (es, r) \<Rightarrow> (ConsoleLog line # es, r)))
              else decode))"

definition retryFetch_body :: "outcome \<Rightarrow> nat \<Rightarrow> event list \<times> action" where
  "retryFetch_body out iteration =
     (case retryFetch_try out iteration of
        (es, Inr a) \<Rightarrow> (es, a)
      | (es, Inl e) \<Rightarrow> (case catch_block e iteration of (es', a) \<Rightarrow> (es @ es', a)))"

fun retryFetch :: "request \<Rightarrow> nat \<Rightarrow> outcome list \<Rightarrow> event list \<times> jsval res \<times> outcome list" where
  "retryFetch input iteration [] = ([CookieFetch input], Pending, [])"
| "retryFetch input iteration (out # net) =
     (case retryFetch_body out iteration of
        (es, Return data) \<Rightarrow> (CookieFetch input # es, Ok data, net)
      | (es, Retry n) \<Rightarrow>
          (case retryFetch input n net of
             (es', r, net') \<Rightarrow> (CookieFetch input # es @ es', r, net')))"

text \<open>\<open>backoffFetch\<close>: the same with plain \<open>fetch\<close>, every status that is not ok retried,
  and the decoded body returned as it is.\<close>

definition backoffFetch_try :: "outcome \<Rightarrow> nat \<Rightarrow> event list \<times> (exn + action)" where
  "backoffFetch_try out iteration =
     (case out of
        Rejected \<Rightarrow> ([], Inl FetchError)
      | Resolved status body \<Rightarrow>
          if \<not> ok status then
            (let seconds = 2 ^ iteration
             in case request_error_line status of
                  Inl e \<Rightarrow> ([], Inl e)
                | Inr line \<Rightarrow>
                    (ConsoleLog line # retry_lines seconds, Inr (Retry (iteration + 1))))
          else (case body of None \<Rightarrow> ([], Inl SyntaxError)
                | Some data \<Rightarrow> ([], Inr (Return data))))"

definition backoffFetch_body :: "outcome \<Rightarrow> nat \<Rightarrow> event list \<times> action" where
  "backoffFetch_body out iteration =
     (case backoffFetch_try out iteration of
        (es, Inr a) \<Rightarrow> (es, a)
      | (es, Inl e) \<Rightarrow> (case catch_block e iteration of (es', a) \<Rightarrow> (es @ es', a)))"

fun backoffFetch :: "request \<Rightarrow> nat \<Rightarrow> outcome list \<Rightarrow> event list \<times> jsval res \<times> outcome list" where
  "backoffFetch input iteration [] = ([Fetch input], Pending, [])"
| "backoffFetch input iteration (out # net) =
     (case backoffFetch_body out iteration of
        (es, Return data) \<Rightarrow> (Fetch input # es, Ok data, net)
      | (es, Retry n) \<Rightarrow>
          (case backoffFetch input n net of
             (es', r, net') \<Rightarrow> (Fetch input # es @ es', r, net')))"


section \<open>Runs: the state a run reads and writes, and sequencing\<close>

text \<open>
  A run consumes the outcomes of its \<open>fetch\<close> calls and reads and writes the two tables of
  the local store \<open>data.sqlite\<close>: \<open>map (wd, wof)\<close> and the table of the foreign ids known
  to have no entity (\<open>woeid (id)\<close>). A step of a run maps a world to the events it
  produces, its result, and the world after it.
\<close>

record world =
  net :: "outcome list"
  map_rows :: "(jsval \<times> number) list"
  other_rows :: "int list"

type_synonym 'a io = "world \<Rightarrow> event list \<times> 'a res \<times> world"

definition returnIO :: "'a \<Rightarrow> 'a io" where
  "returnIO x = (\<lambda>w. ([], Ok x, w))"

definition throwIO :: "exn \<Rightarrow> 'a io" where
  "throwIO e = (\<lambda>w. ([], Throw e, w))"

definition emit :: "event \<Rightarrow> unit io" where
  "emit ev = (\<lambda>w. ([ev], Ok (), w))"

definition liftE :: "exn + 'a \<Rightarrow> 'a io" where
  "liftE m = (case m of Inl e \<Rightarrow> throwIO e | Inr x \<Rightarrow> returnIO x)"

definition bindIO :: "'a io \<Rightarrow> ('a \<Rightarrow> 'b io) \<Rightarrow> 'b io" where
  "bindIO m f = (\<lambda>w.
     case m w of
       (es, Ok x, w') \<Rightarrow> (case f x w' of (es', r, w'') \<Rightarrow> (es @ es', r, w''))
     | (es, Throw e, w') \<Rightarrow> (es, Throw e, w')
     | (es, Pending, w') \<Rightarrow> (es, Pending, w'))"

text \<open>\<open>const response = await fetch(input); const data = await response.json();\<close> outside
  any \<open>try\<close>: the status is not looked at, a rejection is thrown on.\<close>

definition await_json :: "(request \<Rightarrow> event) \<Rightarrow> request \<Rightarrow> jsval io" where
  "await_json via input = (\<lambda>w.
     case net w of
       [] \<Rightarrow> ([via input], Pending, w)
     | Rejected # n \<Rightarrow> ([via input], Throw FetchError, w\<lparr>net := n\<rparr>)
     | Resolved status body # n \<Rightarrow>
         (case body of
            None \<Rightarrow> ([via input], Throw SyntaxError, w\<lparr>net := n\<rparr>)
          | Some data \<Rightarrow> ([via input], Ok data, w\<lparr>net := n\<rparr>)))"

text \<open>A call of \<open>retryFetch(input, options)\<close> or \<open>backoffFetch(input)\<close> from \<open>main\<close> or
  \<open>getToken\<close>: \<open>iteration\<close> takes its default 0. The events \<open>RetryFetch\<close> and
  \<open>BackoffFetch\<close> mark the call itself; the \<open>CookieFetch\<close> and \<open>Fetch\<close> events after it are
  the requests it sends, one per attempt.\<close>

definition call_retryFetch :: "request \<Rightarrow> jsval io" where
  "call_retryFetch input = (\<lambda>w.
     case retryFetch input 0 (net w) of (es, r, n) \<Rightarrow> (RetryFetch input # es, r, w\<lparr>net := n\<rparr>))"

definition call_backoffFetch :: "request \<Rightarrow> jsval io" where
  "call_backoffFetch input = (\<lambda>w.
     case backoffFetch input 0 (net w) of (es, r, n) \<Rightarrow> (BackoffFetch input # es, r, w\<lparr>net := n\<rparr>))"

definition getToken :: "jsval io" where
  "getToken =
     bindIO (call_retryFetch CsrfTokenReq) (\<lambda>data.
       liftE (path data [''query'', ''tokens'', ''csrftoken'']))"

section \<open>Session: login and contribution history\<close>

definition login :: "unit io" where
  "login =
     bindIO (await_json CookieFetch LoginTokenReq) (\<lambda>loginTokenData.
     bindIO (liftE (path loginTokenData [''query'', ''tokens'', ''logintoken''])) (\<lambda>logintoken.
     bindIO (await_json CookieFetch (LoginReq logintoken)) (\<lambda>loginData.
     bindIO (liftE (path loginData [''login'', ''result''])) (\<lambda>result.
     bindIO (emit (ConsoleLog [Txt ''Login Result: '', Val result])) (\<lambda>_.
       if result \<noteq> JStr ''Success'' then throwIO (Error ''Login Failure'')
       else returnIO ())))))"

text \<open>
  A \<open>Set\<close> is the list of its elements in insertion order. \<open>Set.has\<close> compares with
  SameValueZero: primitives by value, objects and arrays by reference; every object read
  out of a response is a fresh one, so it equals no element of a set. A built-in function
  is one object of the runtime, equal to itself.
\<close>

fun primitive :: "jsval \<Rightarrow> bool" where
  "primitive (JArr xs) = False"
| "primitive (JObj kvs) = False"
| "primitive v = True"

definition has :: "jsval list \<Rightarrow> jsval \<Rightarrow> bool" where
  "has xs v = (primitive v \<and> v \<in> set xs)"

definition add :: "jsval list \<Rightarrow> jsval \<Rightarrow> jsval list" where
  "add xs v = (if has xs v then xs else xs @ [v])"

text \<open>The body of \<open>usercontribs.forEach(({ title }) => edited.add(title))\<close>.\<close>

fun add_titles :: "jsval list \<Rightarrow> jsval list \<Rightarrow> exn + jsval list" where
  "add_titles edited [] = Inr edited"
| "add_titles edited (c # cs) =
     bindE (getprop c ''title'') (\<lambda>title. add_titles (add edited title) cs)"

definition next_cont :: "jsval \<Rightarrow> exn + jsval" where
  "next_cont userContribsData =
     bindE (getprop userContribsData ''continue'') (\<lambda>c.
       if truthy c then
         bindE (getprop c ''uccontinue'') (\<lambda>u. Inr (if truthy u then u else JBool False))
       else Inr (JBool False))"

definition add_contribs :: "jsval list \<Rightarrow> jsval \<Rightarrow> exn + jsval list" where
  "add_contribs edited userContribsData =
     bindE (getprop userContribsData ''query'') (\<lambda>q.
       if truthy q then
         bindE (getprop q ''usercontribs'') (\<lambda>ucs.
           if truthy ucs then
             (case ucs of JArr cs \<Rightarrow> add_titles edited cs | _ \<Rightarrow> Inl TypeError)
           else Inr edited)
       else Inr edited)"

text \<open>The loop \<open>while (cont !== false)\<close>: one \<open>cookieFetch\<close> per round. \<open>verbose\<close> is
  true in the variant that logs each continuation.\<close>

fun userContribs ::
  "bool \<Rightarrow> jsval \<Rightarrow> jsval list \<Rightarrow> outcome list \<Rightarrow> event list \<times> jsval list res \<times> outcome list" where
  "userContribs verbose cont edited [] =
     ((if verbose \<and> truthy cont then [ConsoleLog [Txt ''Retreiving contributions '', Val cont]] else [])
        @ [CookieFetch (UserContribsReq cont)], Pending, [])"
| "userContribs verbose cont edited (out # n) =
     (let es = (if verbose \<and> truthy cont
                then [ConsoleLog [Txt ''Retreiving contributions '', Val cont]] else [])
               @ [CookieFetch (UserContribsReq cont)]
      in case out of
           Rejected \<Rightarrow> (es, Throw FetchError, n)
         | Resolved status body \<Rightarrow>
             (case body of
                None \<Rightarrow> (es, Throw SyntaxError, n)
              | Some userContribsData \<Rightarrow>
                  (case next_cont userContribsData of
                     Inl e \<Rightarrow> (es, Throw e, n)
                   | Inr cont' \<Rightarrow>
                       (case add_contribs edited userContribsData of
                          Inl e \<Rightarrow> (es, Throw e, n)
                        | Inr edited' \<Rightarrow>
                            if cont' \<noteq> JBool False then
                              (case userContribs verbose cont' edited' n of
                                 (es', r, n') \<Rightarrow> (es @ es', r, n'))
                            else (es, Ok edited', n)))))"

definition loadEdited :: "bool \<Rightarrow> jsval list io" where
  "loadEdited verbose = (\<lambda>w.
     case userContribs verbose JNull [] (net w) of (es, r, n) \<Rightarrow> (es, r, w\<lparr>net := n\<rparr>))"


text \<open>A \<open>for ... of\<close> loop over a list, with the variables it updates as \<open>s\<close>.\<close>

fun foldIO :: "('s \<Rightarrow> 'a \<Rightarrow> 's io) \<Rightarrow> 's \<Rightarrow> 'a list \<Rightarrow> 's io" where
  "foldIO body s [] = returnIO s"
| "foldIO body s (x # xs) = bindIO (body s x) (\<lambda>s'. foldIO body s' xs)"

section \<open>The gazetteer databases and the candidate queries\<close>

text \<open>
  The columns of \<open>spr\<close> and \<open>concordances\<close> that the queries read. The foreign ids of the
  \<open>gn:id\<close> and \<open>gp:id\<close> sources are integers, and the columns hold no NULL. The ids are
  integers that a JavaScript number holds exactly.
\<close>

record spr_row =
  spr_id :: int
  placetype :: string
  is_current :: int
  is_deprecated :: int

record conc_row =
  conc_id :: int
  other_id :: int
  other_source :: string

record wof_db =
  name :: string
  spr :: "spr_row list"
  concordances :: "conc_row list"

text \<open>\<open>FROM spr INNER JOIN concordances AS c ON spr.id = c.id\<close>.\<close>

definition joined :: "wof_db \<Rightarrow> (spr_row \<times> conc_row) list" where
  "joined db = [(s, c). s \<leftarrow> spr db, c \<leftarrow> concordances db, spr_id s = conc_id c]"

text \<open>
  \<open>GROUP BY spr.id\<close>: one group per id, in ascending order of the id. The selected
  columns are bare columns: SQLite takes them from one row of the group, which row is not
  specified. \<open>pick\<close> says which.
\<close>

type_synonym picker = "(spr_row \<times> conc_row) list \<Rightarrow> nat"

definition groups :: "(spr_row \<times> conc_row) list \<Rightarrow> (spr_row \<times> conc_row) list list" where
  "groups rows =
     map (\<lambda>k. filter (\<lambda>(s, c). spr_id s = k) rows) (sort (remdups (map (\<lambda>(s, c). spr_id s) rows)))"

definition bare :: "picker \<Rightarrow> (spr_row \<times> conc_row) list \<Rightarrow> spr_row \<times> conc_row" where
  "bare pick g = g ! (pick g mod length g)"

text \<open>The query of the \<open>gp:id\<close> variant (\<open>otherSource = 'gp:id'\<close>): rows \<open>(id, other_id)\<close>.\<close>

definition where_gp :: "spr_row \<times> conc_row \<Rightarrow> bool" where
  "where_gp = (\<lambda>(s, c). is_current s \<noteq> 0 \<and> other_source c = ''gp:id''
                         \<and> other_id c \<notin> {-99, -1, 0})"

definition query_gp :: "picker \<Rightarrow> wof_db \<Rightarrow> (int \<times> int) list" where
  "query_gp pick db =
     map (\<lambda>g. case bare pick g of (s, c) \<Rightarrow> (spr_id s, other_id c))
       (groups (filter where_gp (joined db)))"

text \<open>The query of the \<open>gn:id\<close> variant: rows \<open>(id, placetype, other_id)\<close>.\<close>

definition where_gn :: "spr_row \<times> conc_row \<Rightarrow> bool" where
  "where_gn = (\<lambda>(s, c). is_deprecated s \<noteq> 1 \<and> other_source c = ''gn:id''
                         \<and> other_id c \<notin> {-99, -1, 0})"

definition having_gn :: "spr_row \<times> conc_row \<Rightarrow> bool" where
  "having_gn = (\<lambda>(s, c). \<not> other_source c = ''wd:id'')"

definition query_gn :: "picker \<Rightarrow> wof_db \<Rightarrow> (int \<times> string \<times> int) list" where
  "query_gn pick db =
     map (\<lambda>(s, c). (spr_id s, placetype s, other_id c))
       (filter having_gn (map (bare pick) (groups (filter where_gn (joined db)))))"

text \<open>The loop over the files: \<open>list = [...list, ...result]\<close>.\<close>

definition query_files :: "(wof_db \<Rightarrow> 'r list) \<Rightarrow> wof_db list \<Rightarrow> 'r list io" where
  "query_files q files =
     foldIO (\<lambda>list file.
       bindIO (emit (ConsoleLog [Txt ''Querying '', Val (JStr (name file)), Txt '' start''])) (\<lambda>_.
       bindIO (returnIO (q file)) (\<lambda>result.
       bindIO (emit (ConsoleLog [Txt ''Querying '', Val (JStr (name file)), Txt '' end''])) (\<lambda>_.
         returnIO (list @ result))))) [] files"


section \<open>The local store\<close>

text \<open>
  \<open>parseInt(v, 10)\<close> of a string: leading white space (of the code units below 256: tab,
  line feed, vertical tab, form feed, carriage return, space, no-break space), an optional
  sign, then the longest run of decimal digits; NaN when the run is empty, and otherwise
  the double nearest to the value of the run.
\<close>

definition is_space :: "char \<Rightarrow> bool" where
  "is_space c = (of_char c \<in> {9, 10, 11, 12, 13, 32, 160 :: nat})"

definition is_digit :: "char \<Rightarrow> bool" where
  "is_digit c = (48 \<le> (of_char c :: nat) \<and> (of_char c :: nat) \<le> 57)"

definition digits_value :: "string \<Rightarrow> int" where
  "digits_value ds = foldl (\<lambda>acc c. acc * 10 + (int (of_char c) - 48)) 0 ds"

definition parse_int_str :: "string \<Rightarrow> number" where
  "parse_int_str s =
     (let t = dropWhile is_space s;
          neg = (t \<noteq> [] \<and> hd t = CHR ''-'');
          u = (if t \<noteq> [] \<and> (hd t = CHR ''-'' \<or> hd t = CHR ''+'') then tl t else t);
          ds = takeWhile is_digit u
      in if ds = [] then NaN
         else to_double (if neg then - digits_value ds else digits_value ds))"

text \<open>
  \<open>parseInt(d, 10)\<close> of a number \<open>d\<close> parses \<open>String(d)\<close>: NaN for NaN and the infinities
  (no digit); \<open>d\<close> itself below \<open>10^21\<close>, where the string is the decimal notation of a
  decimal that converts back to \<open>d\<close>; from \<open>10^21\<close> on the string is in exponent notation,
  one digit before the point or the \<open>e\<close>, and that digit is the result.
\<close>

definition num_parse :: "number \<Rightarrow> number" where
  "num_parse d =
     (case d of
        Fin n \<Rightarrow>
          if \<bar>n\<bar> < pow 10 21 then Fin n
          else (let k = first_digit (shortest \<bar>n\<bar> (declen \<bar>n\<bar> - 1))
                in Fin (if n < 0 then - k else k))
      | _ \<Rightarrow> NaN)"

text \<open>
  \<open>parseInt(v, 10)\<close> of a value read from a document: a value that is not a string is
  converted to one first. An array gives what its first element gives (the string of an
  array is the strings of its elements joined by commas); \<open>null\<close>, a boolean, an object
  and a function give NaN.
\<close>

fun parseInt :: "jsval \<Rightarrow> number" where
  "parseInt (JStr s) = parse_int_str s"
| "parseInt (JNum n) = num_parse (to_double n)"
| "parseInt (JArr (x # xs)) = parseInt x"
| "parseInt v = NaN"

text \<open>
  \<open>await db.run(`INSERT INTO map VALUES (?, ?)`, entity, wofId)\<close>: the statement fails, and
  the awaiting run throws, when \<open>wofId\<close> is NaN or \<open>entity\<close> is \<open>null\<close> or \<open>undefined\<close> (bound
  as NULL, and both columns are NOT NULL), and when the pair is in the table already (it
  is the primary key). Any other number is stored as it is, and so is an entity id that
  is a string; the conversion to text of an entity id that is not a string is not
  modelled, the value is kept.
\<close>

definition insertMap :: "jsval \<Rightarrow> number \<Rightarrow> unit io" where
  "insertMap entity wofId = (\<lambda>w.
     if wofId = NaN \<or> entity = JNull \<or> entity = JUndefined \<or> (entity, wofId) \<in> set (map_rows w)
     then ([InsertMap entity wofId], Throw SqliteError, w)
     else ([InsertMap entity wofId], Ok (), w\<lparr>map_rows := map_rows w @ [(entity, wofId)]\<rparr>))"

text \<open>
  \<open>db.run(`INSERT OR IGNORE INTO woeid VALUES (?)`, other_id)\<close>: issued without being
  awaited; the model applies it where it is issued.
\<close>

definition insertOther :: "int \<Rightarrow> unit io" where
  "insertOther n = (\<lambda>w.
     ([InsertOther n], Ok (),
      w\<lparr>other_rows := (if n \<in> set (other_rows w) then other_rows w else other_rows w @ [n])\<rparr>))"

definition select_map :: "(jsval \<times> number) list io" where
  "select_map = (\<lambda>w. ([], Ok (map_rows w), w))"

definition select_other :: "int list io" where
  "select_other = (\<lambda>w. ([], Ok (other_rows w), w))"

section \<open>The \<open>gp:id\<close> variant of \<open>main\<close> (part_001, second file)\<close>

definition wofProperty :: string where
  "wofProperty = ''P6766''"

definition otherProperty_gp :: string where
  "otherProperty_gp = ''P1281''"

text \<open>A \<open>Set\<close> of numbers (NaN is equal to itself there), and the \<open>Map\<close> \<open>items\<close> from the
  local id to the row: \<open>set\<close> on a key that is present replaces the value where it is, on
  a new key appends.\<close>

definition add_num :: "number list \<Rightarrow> number \<Rightarrow> number list" where
  "add_num xs n = (if n \<in> set xs then xs else xs @ [n])"

fun map_set :: "int \<Rightarrow> 'v \<Rightarrow> (int \<times> 'v) list \<Rightarrow> (int \<times> 'v) list" where
  "map_set k v [] = [(k, v)]"
| "map_set k v ((k', v') # kvs) =
     (if k = k' then (k, v) # kvs else (k', v') # map_set k v kvs)"

definition map_delete :: "int \<Rightarrow> (int \<times> 'v) list \<Rightarrow> (int \<times> 'v) list" where
  "map_delete k kvs = filter (\<lambda>(k', v). k' \<noteq> k) kvs"

text \<open>The rows of \<open>map\<close> read at the start: the entities of the history that have no row
  yet, and the local ids that have one.\<close>

definition missing_entities :: "jsval list \<Rightarrow> (jsval \<times> number) list \<Rightarrow> jsval list" where
  "missing_entities edited result =
     foldl (\<lambda>missingEntity (wd, wof).
              if has missingEntity wd then removeAll wd missingEntity else missingEntity)
       edited result"

definition known_wofIds :: "(jsval \<times> number) list \<Rightarrow> number list" where
  "known_wofIds result = foldl (\<lambda>wofIds (wd, wof). add_num wofIds (num_parse wof)) [] result"

text \<open>The loop over \<open>missingEntity\<close>: read the entity's claims, store a row for each.\<close>

definition wof_claims :: "jsval \<Rightarrow> jsval list" where
  "wof_claims wofData =
     (if truthy wofData then
        (case getprop wofData ''claims'' of
           Inl e \<Rightarrow> []
         | Inr claims \<Rightarrow>
             if truthy claims then
               (case getprop claims wofProperty of
                  Inr (JArr cs) \<Rightarrow> cs
                | _ \<Rightarrow> [])
             else [])
      else [])"

definition claim_value :: "jsval \<Rightarrow> exn + jsval option" where
  "claim_value claim =
     bindE (getprop claim ''mainsnak'') (\<lambda>mainsnak.
       if truthy mainsnak then
         bindE (getprop mainsnak ''datavalue'') (\<lambda>datavalue.
           if truthy datavalue then
             bindE (getprop datavalue ''value'') (\<lambda>v.
               Inr (if truthy v then Some v else None))
           else Inr None)
       else Inr None)"

definition backfillClaim :: "jsval \<Rightarrow> number list \<Rightarrow> jsval \<Rightarrow> number list io" where
  "backfillClaim entity wofIds claim =
     bindIO (liftE (claim_value claim)) (\<lambda>v.
       case v of
         None \<Rightarrow> returnIO wofIds
       | Some val \<Rightarrow>
           (let wofId = parseInt val
            in bindIO (insertMap entity wofId) (\<lambda>_. returnIO (add_num wofIds wofId))))"

definition backfillEntity :: "number list \<Rightarrow> jsval \<Rightarrow> number list io" where
  "backfillEntity wofIds entity =
     bindIO (emit (ConsoleLog [Txt ''Retrieving Who's on First ID for '', Val entity])) (\<lambda>_.
     bindIO (call_retryFetch (GetClaimsReq wofProperty entity)) (\<lambda>wofData.
       foldIO (backfillClaim entity) wofIds (wof_claims wofData)))"


text \<open>Building \<open>items\<close>: the rows folded into a \<open>Map\<close> keyed by the local id, then the ids
  that have a row in \<open>map\<close> deleted, then the rows whose foreign id is known to have
  no entity deleted. \<open>parseInt\<close> of an integer column of a gazetteer or of the table of
  the foreign ids is the integer; a key of \<open>items\<close> is equal to a number of \<open>wofIds\<close> when
  that number is the integer.\<close>

definition dedup_items :: "(int \<times> int) list \<Rightarrow> (int \<times> int \<times> int) list" where
  "dedup_items list = foldl (\<lambda>m item. map_set (fst item) item m) [] list"

definition remove_linked :: "number list \<Rightarrow> (int \<times> int \<times> int) list \<Rightarrow> (int \<times> int \<times> int) list" where
  "remove_linked wofIds items =
     foldl (\<lambda>m wofId. case wofId of Fin k \<Rightarrow> map_delete k m | _ \<Rightarrow> m) items wofIds"

definition remove_missing :: "int list \<Rightarrow> (int \<times> int \<times> int) list \<Rightarrow> (int \<times> int \<times> int) list" where
  "remove_missing others items = filter (\<lambda>(key, (i, other)). other \<notin> set others) items"

text \<open>The test for "no entity found", and \<open>searchData.query.search[0].title\<close>.\<close>

definition no_entity :: "jsval \<Rightarrow> exn + bool" where
  "no_entity searchData =
     bindE (getprop searchData ''query'') (\<lambda>q.
       if q = JUndefined then Inr True
       else bindE (getprop q ''search'') (\<lambda>s.
         if s = JUndefined then Inr True
         else bindE (getprop s ''length'') (\<lambda>l. Inr (l = JNum 0))))"

fun first_element :: "jsval \<Rightarrow> exn + jsval" where
  "first_element (JArr []) = Inr JUndefined"
| "first_element (JArr (x # xs)) = Inr x"
| "first_element (JStr []) = Inr JUndefined"
| "first_element (JStr (c # cs)) = Inr (JStr [c])"
| "first_element (JObj kvs) = getprop (JObj kvs) ''0''"
| "first_element JUndefined = Inl TypeError"
| "first_element JNull = Inl TypeError"
| "first_element v = Inr JUndefined"

definition first_title :: "jsval \<Rightarrow> exn + jsval" where
  "first_title searchData =
     bindE (path searchData [''query'', ''search'']) (\<lambda>s.
     bindE (first_element s) (\<lambda>hit. getprop hit ''title''))"

text \<open>The write: a token from \<open>getToken\<close>, then \<open>retryFetch\<close> of the \<open>wbcreateclaim\<close>
  form.\<close>

definition createClaim :: "jsval \<Rightarrow> int \<Rightarrow> unit io" where
  "createClaim entityId i =
     bindIO getToken (\<lambda>token.
     bindIO (call_retryFetch (CreateClaimReq entityId wofProperty i token)) (\<lambda>_.
       returnIO ()))"

text \<open>The body of the edit loop for the \<open>n\<close>-th of \<open>sz\<close> items (\<open>items.size\<close>).\<close>

definition editItem_gp :: "jsval list \<Rightarrow> nat \<Rightarrow> nat \<Rightarrow> int \<times> int \<Rightarrow> unit io" where
  "editItem_gp edited sz n = (\<lambda>(i, other).
     bindIO (call_backoffFetch (SearchReq otherProperty_gp other wofProperty)) (\<lambda>searchData.
     bindIO (liftE (no_entity searchData)) (\<lambda>none.
       if none then
         bindIO (emit (ConsoleLog [Pct n sz, Txt '' Skipping '', Dec i, Txt '' No Entity Found''])) (\<lambda>_.
           insertOther other)
       else
         bindIO (liftE (first_title searchData)) (\<lambda>entityId.
           if has edited entityId then
             emit (ConsoleLog [Pct n sz, Txt '' Skipping '', Val entityId, Txt '' Already Edited''])
           else
             bindIO (emit (ConsoleLog [Pct n sz, Txt '' Editing '', Val entityId, Txt '' start''])) (\<lambda>_.
             bindIO (createClaim entityId i) (\<lambda>_.
               emit (ConsoleLog [Pct n sz, Txt '' Editing '', Val entityId, Txt '' end''])))))))"

definition editLoop_gp :: "jsval list \<Rightarrow> (int \<times> int) list \<Rightarrow> nat io" where
  "editLoop_gp edited items =
     foldIO (\<lambda>n item. bindIO (editItem_gp edited (length items) (n + 1) item) (\<lambda>_. returnIO (n + 1)))
       0 items"

text \<open>\<open>main\<close> from the login on. What comes before (the inventory, the downloads) only
  provides the gazetteer databases \<open>files\<close>.\<close>

definition candidates_gp :: "number list \<Rightarrow> int list \<Rightarrow> (int \<times> int) list \<Rightarrow> (int \<times> int) list" where
  "candidates_gp wofIds others list =
     map snd (remove_missing others (remove_linked wofIds (dedup_items list)))"

definition main_gp :: "picker \<Rightarrow> wof_db list \<Rightarrow> unit io" where
  "main_gp pick files =
     bindIO login (\<lambda>_.
     bindIO (emit (ConsoleLog [Txt ''Retreiving contributions''])) (\<lambda>_.
     bindIO (loadEdited True) (\<lambda>edited.
     bindIO (emit (ConsoleLog [Txt ''Number of items edited previously: '', Dec (int (length edited))])) (\<lambda>_.
     bindIO select_map (\<lambda>result.
     bindIO (foldIO backfillEntity (known_wofIds result) (missing_entities edited result)) (\<lambda>wofIds.
     bindIO (query_files (query_gp pick) files) (\<lambda>list.
     bindIO select_other (\<lambda>others.
     bindIO (returnIO (candidates_gp wofIds others list)) (\<lambda>items.
     bindIO (emit (ConsoleLog [Txt ''Number of Wikidata items to edit: '', Dec (int (length items))])) (\<lambda>_.
     bindIO (editLoop_gp edited items) (\<lambda>_. returnIO ())))))))))))"

text \<open>
  The parts of \<open>main\<close> after the history is loaded, named: the backfill of \<open>map\<close> (the
  rows read, then the loop over \<open>missingEntity\<close>), the edit phase (the queries, the
  candidates, the edit loop), and the two in sequence after the log of the size of the
  history.
\<close>

definition backfill_gp :: "jsval list \<Rightarrow> number list io" where
  "backfill_gp edited =
     bindIO select_map (\<lambda>result.
       foldIO backfillEntity (known_wofIds result) (missing_entities edited result))"

definition edit_phase_gp :: "picker \<Rightarrow> wof_db list \<Rightarrow> jsval list \<Rightarrow> number list \<Rightarrow> unit io" where
  "edit_phase_gp pick files edited wofIds =
     bindIO (query_files (query_gp pick) files) (\<lambda>list.
     bindIO select_other (\<lambda>others.
     bindIO (returnIO (candidates_gp wofIds others list)) (\<lambda>items.
     bindIO (emit (ConsoleLog [Txt ''Number of Wikidata items to edit: '', Dec (int (length items))])) (\<lambda>_.
     bindIO (editLoop_gp edited items) (\<lambda>_. returnIO ())))))"

definition after_history_gp :: "picker \<Rightarrow> wof_db list \<Rightarrow> jsval list \<Rightarrow> unit io" where
  "after_history_gp pick files edited =
     bindIO (emit (ConsoleLog [Txt ''Number of items edited previously: '', Dec (int (length edited))])) (\<lambda>_.
     bindIO (backfill_gp edited) (edit_phase_gp pick files edited))"

text \<open>
  Successive runs on one local store: each run has its gazetteer databases, its bare
  column choice and its own remote side, and starts from the tables the run before it
  left.
\<close>

fun after_runs :: "(picker \<times> wof_db list \<times> outcome list) list \<Rightarrow> world \<Rightarrow> world" where
  "after_runs [] w = w"
| "after_runs ((pick, files, remote) # runs) w =
     after_runs runs (snd (snd (main_gp pick files (w\<lparr>net := remote\<rparr>))))"


section \<open>The \<open>gn:id\<close> variant of \<open>main\<close> (part_001, first file)\<close>

definition otherProperty_gn :: string where
  "otherProperty_gn = ''P1566''"

definition instanceProperty :: string where
  "instanceProperty = ''P31''"

text \<open>
  \<open>placetypes\<close> after the start-up loop: for each place type of the table, the set of the
  ids of the classes the query returned for it; \<open>None\<close> for a name that is not in the table
  (\<open>placetypes.get\<close> gives \<open>undefined\<close>).
\<close>

type_synonym placetypes = "string \<Rightarrow> string list option"

definition set_has :: "string list \<Rightarrow> jsval \<Rightarrow> bool" where
  "set_has ids v = (case v of JStr s \<Rightarrow> s \<in> set ids | _ \<Rightarrow> False)"

text \<open>\<open>claims[P31].map(claim => claim.mainsnak.datavalue.value.id)\<close>.\<close>

fun map_ids :: "jsval list \<Rightarrow> exn + jsval list" where
  "map_ids [] = Inr []"
| "map_ids (claim # cs) =
     bindE (path claim [''mainsnak'', ''datavalue'', ''value'', ''id'']) (\<lambda>v.
     bindE (map_ids cs) (\<lambda>vs. Inr (v # vs)))"

definition instance_ids :: "jsval \<Rightarrow> exn + jsval list" where
  "instance_ids v = (case v of JArr cs \<Rightarrow> map_ids cs | _ \<Rightarrow> Inl TypeError)"

text \<open>\<open>instanceOf.find(id => placetypes.get(placetype).has(id))\<close>.\<close>

fun find_valid :: "string list option \<Rightarrow> jsval list \<Rightarrow> exn + jsval" where
  "find_valid accepted [] = Inr JUndefined"
| "find_valid accepted (v # vs) =
     (case accepted of
        None \<Rightarrow> Inl TypeError
      | Some ids \<Rightarrow> if set_has ids v then Inr v else find_valid accepted vs)"

text \<open>The type validation: \<open>Some instanceOf\<close> when the candidate is skipped (with the types
  that are logged), \<open>None\<close> when it goes on to the write.\<close>

definition instance_check :: "placetypes \<Rightarrow> string \<Rightarrow> jsval \<Rightarrow> exn + jsval list option" where
  "instance_check placetypes pt claims =
     bindE (getprop claims instanceProperty) (\<lambda>c.
       if truthy c then
         bindE (instance_ids c) (\<lambda>instanceOf.
           if length instanceOf > 0 then
             bindE (find_valid (placetypes pt) instanceOf) (\<lambda>isValidInstance.
               if \<not> truthy isValidInstance then Inr (Some instanceOf) else Inr None)
           else Inr None)
       else Inr None)"

definition editItem_gn :: "placetypes \<Rightarrow> jsval list \<Rightarrow> int \<times> string \<times> int \<Rightarrow> unit io" where
  "editItem_gn placetypes edited = (\<lambda>(i, pt, other).
     bindIO (call_backoffFetch (SearchReq otherProperty_gn other wofProperty)) (\<lambda>searchData.
     bindIO (liftE (no_entity searchData)) (\<lambda>none.
       if none then emit (ConsoleLog [Txt ''Skipping '', Dec i, Txt '' No Entity Found''])
       else
         bindIO (liftE (first_title searchData)) (\<lambda>entityId.
           if has edited entityId then
             emit (ConsoleLog [Txt ''Skipping '', Val entityId, Txt '' Already Edited''])
           else
             bindIO (call_backoffFetch (GetClaimsReq instanceProperty entityId)) (\<lambda>instanceData.
             bindIO (liftE (getprop instanceData ''claims'')) (\<lambda>claims.
               if claims = JUndefined then
                 bindIO (emit (ConsoleLog [Txt ''Skipping '', Val entityId, Txt '' Error''])) (\<lambda>_.
                   emit (ConsoleError [Val instanceData]))
               else
                 bindIO (liftE (instance_check placetypes pt claims)) (\<lambda>rejected.
                   case rejected of
                     Some instanceOf \<Rightarrow>
                       emit (ConsoleLog [Txt ''Skipping '', Val entityId, Txt '' with '',
                               Txt instanceProperty, Txt '' of '', Val (JArr instanceOf)])
                   | None \<Rightarrow>
                       bindIO (emit (ConsoleLog [Txt ''Editing '', Val entityId, Txt '' start''])) (\<lambda>_.
                       bindIO (createClaim entityId i) (\<lambda>_.
                         emit (ConsoleLog [Txt ''Editing '', Val entityId, Txt '' end'']))))))))))"

definition editLoop_gn :: "placetypes \<Rightarrow> jsval list \<Rightarrow> (int \<times> string \<times> int) list \<Rightarrow> unit io" where
  "editLoop_gn placetypes edited list =
     foldIO (\<lambda>_ item. editItem_gn placetypes edited item) () list"

definition main_gn :: "placetypes \<Rightarrow> picker \<Rightarrow> wof_db list \<Rightarrow> unit io" where
  "main_gn placetypes pick files =
     bindIO login (\<lambda>_.
     bindIO (loadEdited False) (\<lambda>edited.
     bindIO (emit (ConsoleLog [Txt ''Number of items edited previously: '', Dec (int (length edited))])) (\<lambda>_.
     bindIO (query_files (query_gn pick) files) (\<lambda>list.
     bindIO (emit (ConsoleLog [Txt ''Number of Wikidata items to edit: '', Dec (int (length list))])) (\<lambda>_.
       editLoop_gn placetypes edited list)))))"


section \<open>The \<open>wd:id\<close> variants of \<open>main\<close> (index.js and part_000)\<close>

text \<open>
  Their \<open>retryFetch\<close> has no \<open>try\<close>: a rejected \<open>cookieFetch\<close>, a body that is not JSON and
  a TypeError are thrown to the caller, the status is not looked at, and only a throttled
  request is sent again. \<open>perm\<close> is true in part_000, whose \<open>retryFetch\<close> has the branch
  for \<open>no-permission\<close>.
\<close>

definition retryFetch_wd_data :: "bool \<Rightarrow> jsval \<Rightarrow> event list \<times> (exn + action)" where
  "retryFetch_wd_data perm data =
     (case getprop data ''error'' of
        Inl e \<Rightarrow> ([], Inl e)
      | Inr err \<Rightarrow>
          if truthy err then
            (case getprop err ''messages'' of
               Inl e \<Rightarrow> ([], Inl e)
             | Inr messages \<Rightarrow>
                 if truthy messages then
                   (case messages_find messages ''actionthrottledtext'' of
                      Inl e \<Rightarrow> ([], Inl e)
                    | Inr throttled \<Rightarrow>
                        if truthy throttled then
                          ([ConsoleLog [Txt ''Request Throttled, Retrying in 60 seconds''],
                            Timeout (1000 * 60)], Inr (Retry 0))
                        else if perm then
                          (case messages_find messages ''no-permission'' of
                             Inl e \<Rightarrow> ([], Inl e)
                           | Inr denied \<Rightarrow>
                               if truthy denied then
                                 ([ConsoleError [Txt ''Permission Denied!'']], Inr (Return data))
                               else ([ConsoleError [Val err]], Inr (Return data)))
                        else ([ConsoleError [Val err]], Inr (Return data)))
                 else ([], Inr (Return data)))
          else ([], Inr (Return data)))"

fun retryFetch_wd ::
  "bool \<Rightarrow> request \<Rightarrow> outcome list \<Rightarrow> event list \<times> jsval res \<times> outcome list" where
  "retryFetch_wd perm input [] = ([CookieFetch input], Pending, [])"
| "retryFetch_wd perm input (Rejected # n) = ([CookieFetch input], Throw FetchError, n)"
| "retryFetch_wd perm input (Resolved status None # n) = ([CookieFetch input], Throw SyntaxError, n)"
| "retryFetch_wd perm input (Resolved status (Some data) # n) =
     (case retryFetch_wd_data perm data of
        (es, Inl e) \<Rightarrow> (CookieFetch input # es, Throw e, n)
      | (es, Inr (Return d)) \<Rightarrow> (CookieFetch input # es, Ok d, n)
      | (es, Inr (Retry k)) \<Rightarrow>
          (case retryFetch_wd perm input n of
             (es', r, n') \<Rightarrow> (CookieFetch input # es @ es', r, n')))"

definition call_retryFetch_wd :: "bool \<Rightarrow> request \<Rightarrow> jsval io" where
  "call_retryFetch_wd perm input = (\<lambda>w.
     case retryFetch_wd perm input (net w) of
       (es, r, n) \<Rightarrow> (RetryFetch input # es, r, w\<lparr>net := n\<rparr>))"

text \<open>The token is read once, before the loop.\<close>

definition csrfToken :: "jsval io" where
  "csrfToken =
     bindIO (await_json CookieFetch CsrfTokenReq) (\<lambda>csrfTokenData.
       liftE (path csrfTokenData [''query'', ''tokens'', ''csrftoken'']))"

definition edit_wd :: "bool \<Rightarrow> jsval \<Rightarrow> int \<Rightarrow> jsval \<Rightarrow> unit io" where
  "edit_wd perm csrftoken i other =
     bindIO (emit (ConsoleLog [Txt ''Editing '', Val other, Txt '' start''])) (\<lambda>_.
     bindIO (call_retryFetch_wd perm (CreateClaimReq other wofProperty i csrftoken)) (\<lambda>_.
       emit (ConsoleLog [Txt ''Editing '', Val other, Txt '' end''])))"

subsection \<open>part_000\<close>

definition editItem_v2 :: "jsval \<Rightarrow> int \<times> jsval \<Rightarrow> unit io" where
  "editItem_v2 csrftoken = (\<lambda>(i, other).
     bindIO (await_json Fetch (GetClaimsReq wofProperty other)) (\<lambda>data.
     bindIO (liftE (getprop data ''claims'')) (\<lambda>claims.
       if claims = JUndefined then emit (ConsoleError [Val data])
       else
         bindIO (liftE (getprop claims wofProperty)) (\<lambda>c.
           if \<not> truthy c then edit_wd True csrftoken i other
           else emit (ConsoleLog [Txt ''Skipping '', Val other])))))"

text \<open>\<open>results\<close>: for each file, the rows \<open>(id, other_id)\<close> its query returns; the \<open>wd:id\<close>
  foreign ids are entity ids.\<close>

definition unedited :: "jsval list \<Rightarrow> (int \<times> jsval) list list \<Rightarrow> (int \<times> jsval) list" where
  "unedited edited results =
     concat (map (filter (\<lambda>(i, other). \<not> has edited other)) results)"

definition main_v2 :: "(int \<times> jsval) list list \<Rightarrow> unit io" where
  "main_v2 results =
     bindIO login (\<lambda>_.
     bindIO (loadEdited False) (\<lambda>edited.
     bindIO (emit (ConsoleLog [Txt ''Number of items edited previously: '', Dec (int (length edited))])) (\<lambda>_.
     bindIO (returnIO (unedited edited results)) (\<lambda>list.
     bindIO (emit (ConsoleLog [Txt ''Number of Wikidata items to edit: '', Dec (int (length list))])) (\<lambda>_.
     bindIO csrfToken (\<lambda>csrftoken.
       foldIO (\<lambda>_ item. editItem_v2 csrftoken item) () list))))))"

subsection \<open>index.js\<close>

text \<open>The login of index.js: the result is printed and not looked at.\<close>

definition login_v1 :: "unit io" where
  "login_v1 =
     bindIO (await_json CookieFetch LoginTokenReq) (\<lambda>loginTokenData.
     bindIO (liftE (path loginTokenData [''query'', ''tokens'', ''logintoken''])) (\<lambda>logintoken.
     bindIO (await_json CookieFetch (LoginReq logintoken)) (\<lambda>loginData.
     bindIO (liftE (path loginData [''login'', ''result''])) (\<lambda>result.
       emit (ConsoleLog [Txt ''Login Result: '', Val result])))))"

definition editItem_v1 :: "jsval \<Rightarrow> int \<times> jsval \<Rightarrow> unit io" where
  "editItem_v1 csrftoken = (\<lambda>(i, other).
     bindIO (await_json Fetch (GetClaimsReq wofProperty other)) (\<lambda>data.
     bindIO (liftE (getprop data ''claims'')) (\<lambda>claims.
     bindIO (liftE (getprop claims wofProperty)) (\<lambda>c.
       if \<not> truthy c then edit_wd False csrftoken i other
       else emit (ConsoleLog [Txt ''Skipping '', Val other])))))"

definition main_v1 :: "(int \<times> jsval) list list \<Rightarrow> unit io" where
  "main_v1 results =
     bindIO (returnIO (concat results)) (\<lambda>list.
     bindIO (emit (ConsoleLog [Txt ''Number of Wikidata items: '', Dec (int (length list))])) (\<lambda>_.
     bindIO login_v1 (\<lambda>_.
     bindIO csrfToken (\<lambda>csrftoken.
       foldIO (\<lambda>_ item. editItem_v1 csrftoken item) () list))))"

section \<open>Notions of the specification used in the statements\<close>

text \<open>
  The error envelope of the remote interface is \<open>{error: {messages: [{name}, ...]}}\<close>:
  an object whose \<open>error.messages\<close> is an array of objects. It names the throttle condition
  when one of the messages has the name \<open>actionthrottledtext\<close>.
\<close>

fun is_obj :: "jsval \<Rightarrow> bool" where
  "is_obj (JObj kvs) = True"
| "is_obj v = False"

definition names_throttle :: "jsval \<Rightarrow> bool" where
  "names_throttle data =
     (case path data [''error'', ''messages''] of
        Inr (JArr ms) \<Rightarrow>
          list_all is_obj ms
          \<and> list_ex (\<lambda>m. getprop m ''name'' = Inr (JStr ''actionthrottledtext'')) ms
      | _ \<Rightarrow> False)"

definition throttled_body :: jsval where
  "throttled_body =
     JObj [(''error'', JObj [(''code'', JStr ''failed-save''),
                             (''messages'', JArr [JObj [(''name'', JStr ''actionthrottledtext'')]])])]"

section \<open>Reasoning about runs\<close>

text \<open>
  \<open>triple P m E Q\<close>: started in a world that satisfies \<open>P\<close>, the step \<open>m\<close> produces only
  events that satisfy \<open>E\<close>, whatever its result is, and when it returns \<open>x\<close> the world
  satisfies \<open>Q x\<close>.
\<close>

definition triple :: "(world \<Rightarrow> bool) \<Rightarrow> 'a io \<Rightarrow> (event \<Rightarrow> bool) \<Rightarrow> ('a \<Rightarrow> world \<Rightarrow> bool) \<Rightarrow> bool" where
  "triple P m E Q =
     (\<forall>w. P w \<longrightarrow>
        (case m w of
           (es, r, w') \<Rightarrow> list_all E es \<and> (case r of Ok x \<Rightarrow> Q x w' | _ \<Rightarrow> True)))"

text \<open>The events of the transport itself: what it prints and how long it waits.\<close>

fun quiet :: "event \<Rightarrow> bool" where
  "quiet (ConsoleLog l) = True"
| "quiet (ConsoleError l) = True"
| "quiet (Timeout ms) = True"
| "quiet ev = False"

text \<open>\<open>event_ok A B C\<close>: a search is for a foreign id that satisfies \<open>A\<close>, and a
  \<open>wbcreateclaim\<close> write carries a local id that satisfies \<open>B\<close> and targets an entity that
  satisfies \<open>C\<close>.\<close>

fun request_ok :: "(int \<Rightarrow> bool) \<Rightarrow> (int \<Rightarrow> bool) \<Rightarrow> (jsval \<Rightarrow> bool) \<Rightarrow> request \<Rightarrow> bool" where
  "request_ok A B C (SearchReq p n q) = A n"
| "request_ok A B C (CreateClaimReq e p i t) = (B i \<and> C e)"
| "request_ok A B C r = True"

fun event_ok :: "(int \<Rightarrow> bool) \<Rightarrow> (int \<Rightarrow> bool) \<Rightarrow> (jsval \<Rightarrow> bool) \<Rightarrow> event \<Rightarrow> bool" where
  "event_ok A B C (Fetch r) = request_ok A B C r"
| "event_ok A B C (CookieFetch r) = request_ok A B C r"
| "event_ok A B C (RetryFetch r) = request_ok A B C r"
| "event_ok A B C (BackoffFetch r) = request_ok A B C r"
| "event_ok A B C ev = True"

text \<open>A condition on the world that does not look at the outcomes still to come.\<close>

definition netfree :: "(world \<Rightarrow> bool) \<Rightarrow> bool" where
  "netfree P = (\<forall>w n. P w \<longrightarrow> P (w\<lparr>net := n\<rparr>))"

definition mapfree :: "(world \<Rightarrow> bool) \<Rightarrow> bool" where
  "mapfree P = (\<forall>w m. P w \<longrightarrow> P (w\<lparr>map_rows := m\<rparr>))"

text \<open>The invariant of the \<open>Map\<close> \<open>items\<close>: each key once, and each row under its own id.\<close>

definition keyed :: "(int \<times> int \<times> int) list \<Rightarrow> bool" where
  "keyed m = (distinct (map fst m) \<and> (\<forall>(k, item) \<in> set m. fst item = k))"

text \<open>The foreign ids that stand for "no id".\<close>

definition placeholder :: "int \<Rightarrow> bool" where
  "placeholder n = (n \<in> {-99, -1, 0})"

section \<open>Sample inputs\<close>

text \<open>A gazetteer database with three current places; the third has the placeholder
  foreign id \<open>-1\<close>.\<close>

definition sample_db :: wof_db where
  "sample_db =
     \<lparr>name = ''whosonfirst-data-latest.db'',
      spr = [\<lparr>spr_id = 1, placetype = ''locality'', is_current = 1, is_deprecated = 0\<rparr>,
             \<lparr>spr_id = 2, placetype = ''locality'', is_current = 1, is_deprecated = 0\<rparr>,
             \<lparr>spr_id = 3, placetype = ''locality'', is_current = 1, is_deprecated = 0\<rparr>],
      concordances = [\<lparr>conc_id = 1, other_id = 101, other_source = ''gp:id''\<rparr>,
                      \<lparr>conc_id = 2, other_id = 102, other_source = ''gp:id''\<rparr>,
                      \<lparr>conc_id = 3, other_id = -1, other_source = ''gp:id''\<rparr>,
                      \<lparr>conc_id = 1, other_id = 201, other_source = ''gn:id''\<rparr>]\<rparr>"

definition first_row :: picker where
  "first_row g = 0"

text \<open>Responses of the remote interface.\<close>

definition login_token_body :: jsval where
  "login_token_body = JObj [(''query'', JObj [(''tokens'', JObj [(''logintoken'', JStr ''lt'')])])]"

definition login_body :: "string \<Rightarrow> jsval" where
  "login_body result = JObj [(''login'', JObj [(''result'', JStr result)])]"

definition contribs_body :: "string list \<Rightarrow> jsval" where
  "contribs_body titles =
     JObj [(''query'', JObj [(''usercontribs'', JArr (map (\<lambda>t. JObj [(''title'', JStr t)]) titles))])]"

definition search_body :: "string list \<Rightarrow> jsval" where
  "search_body titles =
     JObj [(''query'', JObj [(''search'', JArr (map (\<lambda>t. JObj [(''title'', JStr t)]) titles))])]"

definition token_body :: "string \<Rightarrow> jsval" where
  "token_body t = JObj [(''query'', JObj [(''tokens'', JObj [(''csrftoken'', JStr t)])])]"

definition success_body :: jsval where
  "success_body = JObj [(''success'', JNum 1)]"

definition ok200 :: "jsval \<Rightarrow> outcome" where
  "ok200 body = Resolved 200 (Some body)"

text \<open>A run of the \<open>gp:id\<close> variant on an empty store: the login succeeds, the history
  is empty, and the searches for the foreign ids 101 and 102 both return the entity Q1.\<close>

definition same_entity_world :: world where
  "same_entity_world =
     \<lparr>net = [ok200 login_token_body, ok200 (login_body ''Success''), ok200 (contribs_body []),
             ok200 (search_body [''Q1'']), ok200 (token_body ''t1''), ok200 success_body,
             ok200 (search_body [''Q1'']), ok200 (token_body ''t2''), ok200 success_body],
      map_rows = [], other_rows = []\<rparr>"

text \<open>A later run: the store already holds the foreign id 101 as known to have no
  entity, and the search for 102 finds nothing.\<close>

definition later_world :: world where
  "later_world =
     \<lparr>net = [ok200 login_token_body, ok200 (login_body ''Success''), ok200 (contribs_body []),
             ok200 (search_body [])],
      map_rows = [], other_rows = [101]\<rparr>"

definition zero_hit_world :: world where
  "zero_hit_world = \<lparr>net = [ok200 (search_body [])], map_rows = [], other_rows = []\<rparr>"

text \<open>The \<open>gn:id\<close> variant: an acceptance index with one place type, and an edit of the
  row \<open>(1, locality, 201)\<close> whose entity Q64 has two type claims, the class Q515 that is
  accepted for a locality and the class Q999 that is not.\<close>

definition sample_placetypes :: placetypes where
  "sample_placetypes pt = (if pt = ''locality'' then Some [''Q486972'', ''Q515''] else None)"

definition type_claim :: "string \<Rightarrow> jsval" where
  "type_claim c =
     JObj [(''mainsnak'', JObj [(''datavalue'', JObj [(''value'', JObj [(''id'', JStr c)])])])]"

definition claims_body :: "string \<Rightarrow> jsval list \<Rightarrow> jsval" where
  "claims_body p cs = JObj [(''claims'', JObj [(p, JArr cs)])]"

definition mixed_types_world :: world where
  "mixed_types_world =
     \<lparr>net = [ok200 (search_body [''Q64'']),
             ok200 (claims_body ''P31'' [type_claim ''Q515'', type_claim ''Q999'']),
             ok200 (token_body ''t1''), ok200 success_body],
      map_rows = [], other_rows = []\<rparr>"

definition gn_world :: world where
  "gn_world =
     \<lparr>net = [ok200 login_token_body, ok200 (login_body ''Success''), ok200 (contribs_body [])]
            @ net mixed_types_world,
      map_rows = [], other_rows = []\<rparr>"

text \<open>The \<open>wd:id\<close> variants: rows whose foreign id is the entity id. A run of index.js
  whose login is refused, and a run over two rows; a claim read of part_000 that answers
  without a \<open>claims\<close> map (\<open>{}\<close>), and one that answers with an empty \<open>claims\<close> map.\<close>

definition empty_claims_body :: jsval where
  "empty_claims_body = JObj [(''claims'', JObj [])]"

definition refused_login_world :: world where
  "refused_login_world =
     \<lparr>net = [ok200 login_token_body, ok200 (login_body ''Failed''), ok200 (token_body ''t1''),
             ok200 empty_claims_body, ok200 success_body],
      map_rows = [], other_rows = []\<rparr>"

definition two_rows_world :: world where
  "two_rows_world =
     \<lparr>net = [ok200 login_token_body, ok200 (login_body ''Success''), ok200 (token_body ''t1''),
             ok200 empty_claims_body, ok200 success_body,
             ok200 empty_claims_body, ok200 success_body],
      map_rows = [], other_rows = []\<rparr>"

definition no_claims_world :: world where
  "no_claims_world = \<lparr>net = [ok200 (JObj [])], map_rows = [], other_rows = []\<rparr>"

definition empty_claims_world :: world where
  "empty_claims_world =
     \<lparr>net = [ok200 empty_claims_body, ok200 success_body], map_rows = [], other_rows = []\<rparr>"

section \<open>The writes of a run\<close>

text \<open>The calls of the write in a list of events: for each call of \<open>retryFetch\<close> with a
  \<open>wbcreateclaim\<close> form, the target entity and the local id that is its value.\<close>

fun call_of :: "event \<Rightarrow> (jsval \<times> int) list" where
  "call_of (RetryFetch (CreateClaimReq e p i t)) = [(e, i)]"
| "call_of ev = []"

definition createClaim_calls :: "event list \<Rightarrow> (jsval \<times> int) list" where
  "createClaim_calls es = concat (map call_of es)"



definition keeps_others :: "'a io \<Rightarrow> bool" where
  "keeps_others m =
     (\<forall>w. set (other_rows w) \<subseteq> set (other_rows (snd (snd (m w))))
          \<and> (\<forall>n. InsertOther n \<in> set (fst (m w)) \<longrightarrow> n \<in> set (other_rows (snd (snd (m w))))))"




text \<open>
  Two runs in sequence on an empty store. In the first, the searches for 101 and 102 find
  nothing. The remote side of the second answers the login and the history only.
\<close>

definition first_run_world :: world where
  "first_run_world =
     \<lparr>net = [ok200 login_token_body, ok200 (login_body ''Success''), ok200 (contribs_body []),
             ok200 (search_body []), ok200 (search_body [])],
      map_rows = [], other_rows = []\<rparr>"

definition second_run_remote :: "outcome list" where
  "second_run_remote =
     [ok200 login_token_body, ok200 (login_body ''Success''), ok200 (contribs_body [])]"

section \<open>Rules for runs\<close>

lemma tripleI:
  assumes "\<And>w es r w'. P w \<Longrightarrow> m w = (es, r, w') \<Longrightarrow> list_all E es"
    and "\<And>w es x w'. P w \<Longrightarrow> m w = (es, Ok x, w') \<Longrightarrow> Q x w'"
  shows "triple P m E Q"
  unfolding triple_def using assms by (auto split: prod.splits res.splits)

lemma tripleD_events: "triple P m E Q \<Longrightarrow> P w \<Longrightarrow> list_all E (fst (m w))"
  by (cases "m w") (auto simp: triple_def)

lemma tripleD_result: "triple P m E Q \<Longrightarrow> P w \<Longrightarrow> m w = (es, Ok x, w') \<Longrightarrow> Q x w'"
  unfolding triple_def by (auto split: prod.splits)

lemma triple_return: "(\<And>w. P w \<Longrightarrow> Q x w) \<Longrightarrow> triple P (returnIO x) E Q"
  by (simp add: triple_def returnIO_def)

lemma triple_throw: "triple P (throwIO e) E Q"
  by (simp add: triple_def throwIO_def)

lemma triple_emit: "E ev \<Longrightarrow> (\<And>w. P w \<Longrightarrow> Q () w) \<Longrightarrow> triple P (emit ev) E Q"
  by (simp add: triple_def emit_def)

lemma triple_liftE: "(\<And>x w. m = Inr x \<Longrightarrow> P w \<Longrightarrow> Q x w) \<Longrightarrow> triple P (liftE m) E Q"
  by (cases m) (simp_all add: liftE_def triple_throw triple_return)

lemma triple_bind:
  assumes "triple P m E R" and "\<And>x. triple (R x) (f x) E Q"
  shows "triple P (bindIO m f) E Q"
proof (rule tripleI)
  fix w es r w'
  assume P: "P w" and b: "bindIO m f w = (es, r, w')"
  obtain es1 r1 w1 where m: "m w = (es1, r1, w1)" by (cases "m w")
  from assms(1) P m have e1: "list_all E es1" by (auto simp: triple_def)
  show "list_all E es"
  proof (cases r1)
    case (Ok x)
    with assms(1) P m have "R x w1" by (auto simp: triple_def)
    then have "list_all E (fst (f x w1))" by (rule tripleD_events[OF assms(2)])
    with b m Ok e1 show ?thesis by (auto simp: bindIO_def split: prod.splits)
  qed (use b m e1 in \<open>auto simp: bindIO_def\<close>)
next
  fix w es x w'
  assume P: "P w" and b: "bindIO m f w = (es, Ok x, w')"
  obtain es1 r1 w1 where m: "m w = (es1, r1, w1)" by (cases "m w")
  with b obtain y es2 where r1: "r1 = Ok y" and f: "f y w1 = (es2, Ok x, w')"
    by (cases r1) (auto simp: bindIO_def split: prod.splits)
  from assms(1) P m r1 have "R y w1" by (auto simp: triple_def)
  then show "Q x w'" by (rule tripleD_result[OF assms(2) _ f])
qed

lemma triple_pre: "triple P' m E Q \<Longrightarrow> (\<And>w. P w \<Longrightarrow> P' w) \<Longrightarrow> triple P m E Q"
  by (auto simp: triple_def)

lemma triple_assume: "(A \<Longrightarrow> triple P m E Q) \<Longrightarrow> triple (\<lambda>w. A \<and> P w) m E Q"
  by (auto simp: triple_def)

lemma triple_foldIO:
  assumes "\<And>s x. x \<in> set xs \<Longrightarrow> triple (I s) (body s x) E I"
  shows "triple (I s) (foldIO body s xs) E I"
  using assms
proof (induction xs arbitrary: s)
  case Nil
  show ?case by (simp add: triple_return)
next
  case (Cons x xs)
  have step: "triple (I s) (body s x) E I" by (rule Cons.prems) simp
  have rest: "\<And>s'. triple (I s') (foldIO body s' xs) E I"
    by (rule Cons.IH) (simp add: Cons.prems)
  show ?case by (simp, rule triple_bind[OF step rest])
qed

lemma retryFetch_body_quiet: "list_all quiet (fst (retryFetch_body out it))"
  by (auto simp: retryFetch_body_def retryFetch_try_def retryFetch_data_def catch_block_def
      retry_lines_def request_error_line_def repsonse_statusText_def bindE_def Let_def
      split: outcome.splits option.splits sum.splits prod.splits if_splits)

lemma retryFetch_events:
  "list_all (\<lambda>ev. ev = CookieFetch input \<or> quiet ev) (fst (retryFetch input it nt))"
proof (induction nt arbitrary: it)
  case Nil
  show ?case by simp
next
  case (Cons out nt)
  obtain es a where b: "retryFetch_body out it = (es, a)" by (cases "retryFetch_body out it")
  from retryFetch_body_quiet[of out it] b have q: "list_all quiet es" by simp
  then have q': "list_all (\<lambda>ev. ev = CookieFetch input \<or> quiet ev) es"
    by (simp add: list_all_iff)
  show ?case
  proof (cases a)
    case (Return d)
    with b q' show ?thesis by simp
  next
    case (Retry n)
    with b q' Cons[of n] show ?thesis by (auto split: prod.splits)
  qed
qed

lemma backoffFetch_body_quiet: "list_all quiet (fst (backoffFetch_body out it))"
  by (auto simp: backoffFetch_body_def backoffFetch_try_def catch_block_def
      retry_lines_def request_error_line_def repsonse_statusText_def bindE_def Let_def
      split: outcome.splits option.splits sum.splits prod.splits if_splits)

lemma backoffFetch_events:
  "list_all (\<lambda>ev. ev = Fetch input \<or> quiet ev) (fst (backoffFetch input it nt))"
proof (induction nt arbitrary: it)
  case Nil
  show ?case by simp
next
  case (Cons out nt)
  obtain es a where b: "backoffFetch_body out it = (es, a)" by (cases "backoffFetch_body out it")
  from backoffFetch_body_quiet[of out it] b have q: "list_all quiet es" by simp
  then have q': "list_all (\<lambda>ev. ev = Fetch input \<or> quiet ev) es"
    by (simp add: list_all_iff)
  show ?case
  proof (cases a)
    case (Return d)
    with b q' show ?thesis by simp
  next
    case (Retry n)
    with b q' Cons[of n] show ?thesis by (auto split: prod.splits)
  qed
qed

lemma triple_call_retryFetch:
  assumes "E (RetryFetch input)" "E (CookieFetch input)" "\<And>ev. quiet ev \<Longrightarrow> E ev"
    and "\<And>w n x. P w \<Longrightarrow> Q x (w\<lparr>net := n\<rparr>)"
  shows "triple P (call_retryFetch input) E Q"
proof (rule tripleI)
  fix w es r w'
  assume "P w" and c: "call_retryFetch input w = (es, r, w')"
  from retryFetch_events[of input 0 "net w"] assms(2,3)
  have "list_all E (fst (retryFetch input 0 (net w)))" by (auto simp: list_all_iff)
  with c assms(1) show "list_all E es"
    by (auto simp: call_retryFetch_def split: prod.splits)
next
  fix w es x w'
  assume "P w" and "call_retryFetch input w = (es, Ok x, w')"
  with assms(4) show "Q x w'" by (auto simp: call_retryFetch_def split: prod.splits)
qed

lemma triple_call_backoffFetch:
  assumes "E (BackoffFetch input)" "E (Fetch input)" "\<And>ev. quiet ev \<Longrightarrow> E ev"
    and "\<And>w n x. P w \<Longrightarrow> Q x (w\<lparr>net := n\<rparr>)"
  shows "triple P (call_backoffFetch input) E Q"
proof (rule tripleI)
  fix w es r w'
  assume "P w" and c: "call_backoffFetch input w = (es, r, w')"
  from backoffFetch_events[of input 0 "net w"] assms(2,3)
  have "list_all E (fst (backoffFetch input 0 (net w)))" by (auto simp: list_all_iff)
  with c assms(1) show "list_all E es"
    by (auto simp: call_backoffFetch_def split: prod.splits)
next
  fix w es x w'
  assume "P w" and "call_backoffFetch input w = (es, Ok x, w')"
  with assms(4) show "Q x w'" by (auto simp: call_backoffFetch_def split: prod.splits)
qed

lemma triple_await_json:
  assumes "E (via input)" and "\<And>w n x. P w \<Longrightarrow> Q x (w\<lparr>net := n\<rparr>)"
  shows "triple P (await_json via input) E Q"
  using assms
  by (auto simp: triple_def await_json_def split: list.splits outcome.splits option.splits)

lemma quiet_event_ok: "quiet ev \<Longrightarrow> event_ok A B C ev"
  by (cases ev) auto

lemma netfreeD: "netfree P \<Longrightarrow> P w \<Longrightarrow> P (w\<lparr>net := n\<rparr>)"
  by (simp add: netfree_def)

lemma triple_getToken:
  assumes "netfree P"
  shows "triple P getToken (event_ok A B C) (\<lambda>_. P)"
  unfolding getToken_def
  apply (rule triple_bind[where R = "\<lambda>_. P"])
   apply (rule triple_call_retryFetch)
      apply (simp_all add: quiet_event_ok netfreeD[OF assms])
  apply (rule triple_liftE, assumption)
  done

lemma triple_createClaim:
  assumes "netfree P" and "B i" and "C e"
  shows "triple P (createClaim e i) (event_ok A B C) (\<lambda>_. P)"
  unfolding createClaim_def
  apply (rule triple_bind[where R = "\<lambda>_. P"])
   apply (rule triple_getToken[OF assms(1)])
  apply (rule triple_bind[where R = "\<lambda>_. P"])
   apply (rule triple_call_retryFetch)
      apply (simp_all add: quiet_event_ok assms(2,3) netfreeD[OF assms(1)])
  apply (rule triple_return, assumption)
  done

lemma triple_login:
  assumes "netfree P"
  shows "triple P login (event_ok A B C) (\<lambda>_. P)"
  unfolding login_def
  apply (rule triple_bind[where R = "\<lambda>_. P"])
   apply (rule triple_await_json; simp add: netfreeD[OF assms])
  apply (rule triple_bind[where R = "\<lambda>_. P"])
   apply (rule triple_liftE, assumption)
  apply (rule triple_bind[where R = "\<lambda>_. P"])
   apply (rule triple_await_json; simp add: netfreeD[OF assms])
  apply (rule triple_bind[where R = "\<lambda>_. P"])
   apply (rule triple_liftE, assumption)
  apply (rule triple_bind[where R = "\<lambda>_. P"])
   apply (rule triple_emit; simp)
  apply (auto intro!: triple_throw triple_return)
  done

lemma userContribs_events:
  "list_all (event_ok A B C) (fst (userContribs v cont edited nt))"
proof (induction nt arbitrary: cont edited v)
  case Nil
  show ?case by simp
next
  case (Cons out nt)
  have IH: "\<And>v c e es r n. userContribs v c e nt = (es, r, n) \<Longrightarrow> list_all (event_ok A B C) es"
    using Cons by (metis fst_conv)
  show ?case
    by (auto simp: Let_def dest: IH split: outcome.splits option.splits sum.splits prod.splits)
qed

lemma triple_loadEdited:
  assumes "netfree P"
  shows "triple P (loadEdited v) (event_ok A B C) (\<lambda>_. P)"
proof (rule tripleI)
  fix w es r w'
  assume "P w" and c: "loadEdited v w = (es, r, w')"
  from userContribs_events[of A B C v JNull "[]" "net w"] c show "list_all (event_ok A B C) es"
    by (auto simp: loadEdited_def split: prod.splits)
next
  fix w es x w'
  assume "P w" and "loadEdited v w = (es, Ok x, w')"
  with netfreeD[OF assms] show "P w'" by (auto simp: loadEdited_def split: prod.splits)
qed


lemma triple_keep_bind:
  "triple P m E (\<lambda>_. P) \<Longrightarrow> (\<And>x. triple P (f x) E Q) \<Longrightarrow> triple P (bindIO m f) E Q"
  by (rule triple_bind)

lemma triple_emit_bind:
  "E ev \<Longrightarrow> triple P k E Q \<Longrightarrow> triple P (bindIO (emit ev) (\<lambda>_. k)) E Q"
  by (rule triple_keep_bind) (rule triple_emit)

lemma triple_return_bind:
  "triple P (f x) E Q \<Longrightarrow> triple P (bindIO (returnIO x) f) E Q"
  by (auto simp: triple_def bindIO_def returnIO_def split: prod.splits res.splits)

lemma triple_liftE_bind:
  "(\<And>x. m = Inr x \<Longrightarrow> triple P (f x) E Q) \<Longrightarrow> triple P (bindIO (liftE m) f) E Q"
  by (cases m)
     (auto simp: triple_def bindIO_def liftE_def returnIO_def throwIO_def split: prod.splits res.splits)

lemma mapfreeD: "mapfree P \<Longrightarrow> P w \<Longrightarrow> P (w\<lparr>map_rows := m\<rparr>)"
  by (simp add: mapfree_def)

lemma triple_insertMap:
  assumes "mapfree P"
  shows "triple P (insertMap e n) (event_ok A B C) (\<lambda>_. P)"
  using mapfreeD[OF assms]
  by (auto simp: triple_def insertMap_def split: option.splits)

lemma triple_backfillClaim:
  assumes "mapfree P"
  shows "triple P (backfillClaim e ids c) (event_ok A B C) (\<lambda>_. P)"
  unfolding backfillClaim_def
proof (rule triple_liftE_bind)
  fix v
  show "triple P
          (case v of None \<Rightarrow> returnIO ids
           | Some val \<Rightarrow>
               let wofId = parseInt val
               in bindIO (insertMap e wofId) (\<lambda>_. returnIO (add_num ids wofId)))
          (event_ok A B C) (\<lambda>_. P)"
  proof (cases v)
    case None
    then show ?thesis by (simp add: triple_return)
  next
    case (Some val)
    have "triple P (bindIO (insertMap e (parseInt val)) (\<lambda>_. returnIO (add_num ids (parseInt val))))
           (event_ok A B C) (\<lambda>_. P)"
      by (rule triple_keep_bind[OF triple_insertMap[OF assms]]) (rule triple_return)
    with Some show ?thesis by (simp add: Let_def)
  qed
qed

lemma triple_backfillEntity:
  assumes "netfree P" "mapfree P"
  shows "triple P (backfillEntity ids e) (event_ok A B C) (\<lambda>_. P)"
  unfolding backfillEntity_def
proof (rule triple_emit_bind)
  show "event_ok A B C (ConsoleLog [Txt ''Retrieving Who's on First ID for '', Val e])" by simp
  have call: "triple P (call_retryFetch (GetClaimsReq wofProperty e)) (event_ok A B C) (\<lambda>_. P)"
    by (rule triple_call_retryFetch) (simp_all add: quiet_event_ok netfreeD[OF assms(1)])
  show "triple P (bindIO (call_retryFetch (GetClaimsReq wofProperty e))
           (\<lambda>wofData. foldIO (backfillClaim e) ids (wof_claims wofData)))
         (event_ok A B C) (\<lambda>_. P)"
    by (rule triple_keep_bind[OF call])
       (rule triple_foldIO[where I = "\<lambda>_. P"], rule triple_backfillClaim[OF assms(2)])
qed

lemma triple_backfill:
  assumes "netfree P" "mapfree P"
  shows "triple P (foldIO backfillEntity ids es) (event_ok A B C) (\<lambda>_. P)"
  by (rule triple_foldIO[where I = "\<lambda>_. P"]) (rule triple_backfillEntity[OF assms])

lemma triple_select_map: "triple P select_map E (\<lambda>_. P)"
  by (simp add: triple_def select_map_def)

lemma triple_select_other: "triple P select_other E (\<lambda>others w. others = other_rows w \<and> P w)"
  by (simp add: triple_def select_other_def)

lemma triple_query_files:
  "triple P (query_files q files) (event_ok A B C)
     (\<lambda>list w. set list \<subseteq> (\<Union>db\<in>set files. set (q db)) \<and> P w)"
proof -
  let ?I = "\<lambda>list w. set list \<subseteq> (\<Union>db\<in>set files. set (q db)) \<and> P w"
  have body: "triple (?I s) 
      (bindIO (emit (ConsoleLog [Txt ''Querying '', Val (JStr (name x)), Txt '' start''])) (\<lambda>_.
       bindIO (returnIO (q x)) (\<lambda>result.
       bindIO (emit (ConsoleLog [Txt ''Querying '', Val (JStr (name x)), Txt '' end''])) (\<lambda>_.
         returnIO (s @ result))))) (event_ok A B C) ?I" if "x \<in> set files" for s x
    apply (rule triple_emit_bind, simp)
    apply (rule triple_return_bind)
    apply (rule triple_emit_bind, simp)
    apply (rule triple_return)
    using that apply auto
    done
  have "triple (?I []) (query_files q files) (event_ok A B C) ?I"
    unfolding query_files_def by (rule triple_foldIO[where I = ?I]) (rule body)
  then show ?thesis by (rule triple_pre) simp
qed


lemma triple_weaken: "triple P m E Q \<Longrightarrow> triple P m E (\<lambda>_ _. True)"
  by (rule tripleI) (auto dest: tripleD_events)

lemma triple_any_bind:
  "triple P m E R \<Longrightarrow> (\<And>x. triple (\<lambda>_. True) (f x) E Q) \<Longrightarrow> triple P (bindIO m f) E Q"
  by (rule triple_bind[where R = "\<lambda>_ _. True"], rule triple_weaken) auto

lemma triple_insertOther: "triple P (insertOther n) (event_ok A B C) (\<lambda>_ _. True)"
  by (simp add: triple_def insertOther_def)

lemma netfree_True: "netfree (\<lambda>_. True)"
  by (simp add: netfree_def)

lemma triple_editItem_gp:
  assumes "A other" "B i" "\<And>e. \<not> has edited e \<Longrightarrow> C e"
  shows "triple (\<lambda>_. True) (editItem_gp edited sz n (i, other)) (event_ok A B C) (\<lambda>_ _. True)"
proof -
  let ?E = "event_ok A B C"
  let ?T = "\<lambda>_::world. True"
  let ?Q = "\<lambda>(_::unit) (_::world). True"
  have search: "triple ?T (call_backoffFetch (SearchReq otherProperty_gp other wofProperty)) ?E (\<lambda>_. ?T)"
    by (rule triple_call_backoffFetch) (simp_all add: quiet_event_ok assms)
  have wr: "triple ?T (createClaim e i) ?E (\<lambda>_. ?T)" if "\<not> has edited e" for e
    by (rule triple_createClaim[where B = B and C = C, OF netfree_True assms(2) assms(3)[OF that]])
  have edit: "triple ?T
      (bindIO (emit (ConsoleLog [Pct n sz, Txt '' Editing '', Val e, Txt '' start''])) (\<lambda>_.
       bindIO (createClaim e i) (\<lambda>_.
         emit (ConsoleLog [Pct n sz, Txt '' Editing '', Val e, Txt '' end''])))) ?E ?Q"
    if "\<not> has edited e" for e
    apply (rule triple_emit_bind, simp)
    apply (rule triple_keep_bind[OF wr[OF that]])
    apply (rule triple_emit, simp_all)
    done
  have skip: "triple ?T (emit (ConsoleLog [Pct n sz, Txt '' Skipping '', Val e, Txt '' Already Edited''])) ?E ?Q" for e
    by (rule triple_emit) simp_all
  have none: "triple ?T
      (bindIO (emit (ConsoleLog [Pct n sz, Txt '' Skipping '', Dec i, Txt '' No Entity Found''])) (\<lambda>_.
         insertOther other)) ?E ?Q"
    by (rule triple_emit_bind, simp) (rule triple_insertOther)
  show ?thesis
    unfolding editItem_gp_def prod.case
    apply (rule triple_keep_bind[OF search])
    apply (rule triple_liftE_bind)
    apply (simp only: split: if_split)
    apply (intro conjI impI)
     apply (rule none)
    apply (rule triple_liftE_bind)
    apply (simp only: split: if_split)
    apply (intro conjI impI)
     apply (rule skip)
    apply (rule edit, assumption)
    done
qed

lemma triple_editLoop_gp:
  assumes "\<forall>(i, other) \<in> set items. A other \<and> B i" "\<And>e. \<not> has edited e \<Longrightarrow> C e"
  shows "triple (\<lambda>_. True) (editLoop_gp edited items) (event_ok A B C) (\<lambda>_ _. True)"
  unfolding editLoop_gp_def
proof (rule triple_foldIO[where I = "\<lambda>_ _. True"])
  fix s x
  assume "x \<in> set items"
  with assms(1) obtain i other where x: "x = (i, other)" and ok: "A other" "B i" by auto
  have item: "triple (\<lambda>_. True) (editItem_gp edited (length items) (s + 1) (i, other))
                (event_ok A B C) (\<lambda>_ _. True)"
  proof (rule triple_editItem_gp[where A = A and B = B and C = C])
    show "A other" and "B i" by (rule ok)+
    show "\<And>e. \<not> has edited e \<Longrightarrow> C e" by (rule assms(2))
  qed
  show "triple (\<lambda>_. True)
          (bindIO (editItem_gp edited (length items) (s + 1) x) (\<lambda>_. returnIO (s + 1)))
          (event_ok A B C) (\<lambda>_ _. True)"
    unfolding x
    by (rule triple_any_bind[OF item]) (rule triple_return, simp)
qed

lemma netfree_others: "netfree (\<lambda>w. other_rows w = X)"
  by (simp add: netfree_def)

lemma mapfree_others: "mapfree (\<lambda>w. other_rows w = X)"
  by (simp add: mapfree_def)

lemma triple_main_gp:
  assumes "\<And>wofIds list. set list \<subseteq> (\<Union>db\<in>set files. set (query_gp pick db))
             \<Longrightarrow> \<forall>(i, other) \<in> set (candidates_gp wofIds X list). A other \<and> B i"
    and "\<And>e. C e"
  shows "triple (\<lambda>w. other_rows w = X) (main_gp pick files) (event_ok A B C) (\<lambda>_ _. True)"
proof -
  let ?E = "event_ok A B C"
  let ?P = "\<lambda>w. other_rows w = X"
  let ?U = "\<Union>db\<in>set files. set (query_gp pick db)"
  have tail: "triple (\<lambda>_. True)
      (bindIO (returnIO (candidates_gp wofIds X list)) (\<lambda>items.
       bindIO (emit (ConsoleLog [Txt ''Number of Wikidata items to edit: '', Dec (int (length items))])) (\<lambda>_.
       bindIO (editLoop_gp edited items) (\<lambda>_. returnIO ())))) ?E (\<lambda>_ _. True)"
    if "set list \<subseteq> ?U" for wofIds list edited
    apply (rule triple_return_bind)
    apply (rule triple_emit_bind, simp)
    apply (rule triple_keep_bind[OF triple_editLoop_gp[OF assms(1)[OF that] assms(2)]])
    apply (rule triple_return, simp)
    done
  have others: "triple (\<lambda>w. set list \<subseteq> ?U \<and> ?P w)
      (bindIO select_other (\<lambda>others.
       bindIO (returnIO (candidates_gp wofIds others list)) (\<lambda>items.
       bindIO (emit (ConsoleLog [Txt ''Number of Wikidata items to edit: '', Dec (int (length items))])) (\<lambda>_.
       bindIO (editLoop_gp edited items) (\<lambda>_. returnIO ()))))) ?E (\<lambda>_ _. True)"
    for wofIds list edited
  proof (rule triple_assume)
    assume sub: "set list \<subseteq> ?U"
    show "triple ?P
      (bindIO select_other (\<lambda>others.
       bindIO (returnIO (candidates_gp wofIds others list)) (\<lambda>items.
       bindIO (emit (ConsoleLog [Txt ''Number of Wikidata items to edit: '', Dec (int (length items))])) (\<lambda>_.
       bindIO (editLoop_gp edited items) (\<lambda>_. returnIO ()))))) ?E (\<lambda>_ _. True)"
    proof (rule triple_bind[OF triple_select_other])
      fix others
      have "triple (\<lambda>w. others = X \<and> True)
         (bindIO (returnIO (candidates_gp wofIds others list)) (\<lambda>items.
          bindIO (emit (ConsoleLog [Txt ''Number of Wikidata items to edit: '', Dec (int (length items))])) (\<lambda>_.
          bindIO (editLoop_gp edited items) (\<lambda>_. returnIO ())))) ?E (\<lambda>_ _. True)"
        by (rule triple_assume) (simp add: tail[OF sub])
      then show "triple (\<lambda>w. others = other_rows w \<and> other_rows w = X)
         (bindIO (returnIO (candidates_gp wofIds others list)) (\<lambda>items.
          bindIO (emit (ConsoleLog [Txt ''Number of Wikidata items to edit: '', Dec (int (length items))])) (\<lambda>_.
          bindIO (editLoop_gp edited items) (\<lambda>_. returnIO ())))) ?E (\<lambda>_ _. True)"
        by (rule triple_pre) simp
    qed
  qed
  show ?thesis
    unfolding main_gp_def
    apply (rule triple_keep_bind[OF triple_login[OF netfree_others]])
    apply (rule triple_emit_bind, simp)
    apply (rule triple_keep_bind[OF triple_loadEdited[OF netfree_others]])
    apply (rule triple_emit_bind, simp)
    apply (rule triple_keep_bind[OF triple_select_map])
    apply (rule triple_keep_bind[OF triple_backfill[OF netfree_others mapfree_others]])
    apply (rule triple_bind[OF triple_query_files])
    apply (rule others)
    done
qed

lemma triple_editItem_gn:
  assumes "A other" "B i" "\<And>e. \<not> has edited e \<Longrightarrow> C e"
  shows "triple (\<lambda>_. True) (editItem_gn placetypes edited (i, pt, other)) (event_ok A B C) (\<lambda>_ _. True)"
proof -
  let ?E = "event_ok A B C"
  let ?T = "\<lambda>_::world. True"
  let ?Q = "\<lambda>(_::unit) (_::world). True"
  have search: "triple ?T (call_backoffFetch (SearchReq otherProperty_gn other wofProperty)) ?E (\<lambda>_. ?T)"
    by (rule triple_call_backoffFetch) (simp_all add: quiet_event_ok assms)
  have claims: "triple ?T (call_backoffFetch (GetClaimsReq instanceProperty e)) ?E (\<lambda>_. ?T)" for e
    by (rule triple_call_backoffFetch) (simp_all add: quiet_event_ok)
  have wr: "triple ?T (createClaim e i) ?E (\<lambda>_. ?T)" if "\<not> has edited e" for e
    by (rule triple_createClaim[where B = B and C = C, OF netfree_True assms(2) assms(3)[OF that]])
  have edit: "triple ?T
      (bindIO (emit (ConsoleLog [Txt ''Editing '', Val e, Txt '' start''])) (\<lambda>_.
       bindIO (createClaim e i) (\<lambda>_.
         emit (ConsoleLog [Txt ''Editing '', Val e, Txt '' end''])))) ?E ?Q"
    if "\<not> has edited e" for e
    apply (rule triple_emit_bind, simp)
    apply (rule triple_keep_bind[OF wr[OF that]])
    apply (rule triple_emit, simp_all)
    done
  have log: "triple ?T (emit (ConsoleLog l)) ?E ?Q" for l
    by (rule triple_emit) simp_all
  have err: "triple ?T (bindIO (emit (ConsoleLog l)) (\<lambda>_. emit (ConsoleError l'))) ?E ?Q" for l l'
    by (rule triple_emit_bind, simp) (rule triple_emit, simp_all)
  have decide: "triple ?T
      (case rejected of
         Some instanceOf \<Rightarrow>
           emit (ConsoleLog [Txt ''Skipping '', Val e, Txt '' with '',
                   Txt instanceProperty, Txt '' of '', Val (JArr instanceOf)])
       | None \<Rightarrow>
           bindIO (emit (ConsoleLog [Txt ''Editing '', Val e, Txt '' start''])) (\<lambda>_.
           bindIO (createClaim e i) (\<lambda>_.
             emit (ConsoleLog [Txt ''Editing '', Val e, Txt '' end''])))) ?E ?Q"
    if "\<not> has edited e" for rejected e
    by (cases rejected) (simp_all add: edit[OF that] log)
  show ?thesis
    unfolding editItem_gn_def prod.case
    apply (rule triple_keep_bind[OF search])
    apply (rule triple_liftE_bind)
    apply (simp only: split: if_split)
    apply (intro conjI impI)
     apply (rule log)
    apply (rule triple_liftE_bind)
    apply (simp only: split: if_split)
    apply (intro conjI impI)
     apply (rule log)
    apply (rule triple_keep_bind[OF claims])
    apply (rule triple_liftE_bind)
    apply (simp only: split: if_split)
    apply (intro conjI impI)
     apply (rule err)
    apply (rule triple_liftE_bind)
    apply (rule decide, assumption)
    done
qed

lemma triple_editLoop_gn:
  assumes "\<forall>(i, pt, other) \<in> set list. A other \<and> B i" "\<And>e. \<not> has edited e \<Longrightarrow> C e"
  shows "triple (\<lambda>_. True) (editLoop_gn placetypes edited list) (event_ok A B C) (\<lambda>_ _. True)"
  unfolding editLoop_gn_def
proof (rule triple_foldIO[where I = "\<lambda>_ _. True"])
  fix s :: unit and x
  assume "x \<in> set list"
  with assms(1) obtain i pt other where x: "x = (i, pt, other)" and ok: "A other" "B i" by auto
  show "triple (\<lambda>_. True) (editItem_gn placetypes edited x) (event_ok A B C) (\<lambda>_ _. True)"
    unfolding x
  proof (rule triple_editItem_gn[where A = A and B = B and C = C])
    show "A other" and "B i" by (rule ok)+
    show "\<And>e. \<not> has edited e \<Longrightarrow> C e" by (rule assms(2))
  qed
qed

lemma triple_main_gn:
  assumes "\<And>list. set list \<subseteq> (\<Union>db\<in>set files. set (query_gn pick db))
             \<Longrightarrow> \<forall>(i, pt, other) \<in> set list. A other \<and> B i"
    and "\<And>e. C e"
  shows "triple (\<lambda>_. True) (main_gn placetypes pick files) (event_ok A B C) (\<lambda>_ _. True)"
proof -
  let ?E = "event_ok A B C"
  let ?U = "\<Union>db\<in>set files. set (query_gn pick db)"
  have tail: "triple (\<lambda>w. set list \<subseteq> ?U \<and> True)
      (bindIO (emit (ConsoleLog [Txt ''Number of Wikidata items to edit: '', Dec (int (length list))])) (\<lambda>_.
         editLoop_gn placetypes edited list)) ?E (\<lambda>_ _. True)" for list edited
    apply (rule triple_assume)
    apply (rule triple_emit_bind, simp)
    apply (rule triple_editLoop_gn[OF assms(1) assms(2)], assumption)
    done
  show ?thesis
    unfolding main_gn_def
    apply (rule triple_keep_bind[OF triple_login[OF netfree_True]])
    apply (rule triple_keep_bind[OF triple_loadEdited[OF netfree_True]])
    apply (rule triple_emit_bind, simp)
    apply (rule triple_bind[OF triple_query_files])
    apply (rule tail)
    done
qed

section \<open>The candidate list\<close>

lemma set_map_set: "set (map_set k v m) \<subseteq> insert (k, v) (set m)"
  by (induction m) (auto split: if_splits)

lemma keys_map_set:
  "map fst (map_set k v m) = (if k \<in> fst ` set m then map fst m else map fst m @ [k])"
  by (induction m) (auto split: if_splits)

lemma distinct_map_set: "distinct (map fst m) \<Longrightarrow> distinct (map fst (map_set k v m))"
  by (simp add: keys_map_set)

lemma keyed_map_set: "keyed m \<Longrightarrow> keyed (map_set (fst item) item m)"
  unfolding keyed_def using set_map_set[of "fst item" item m]
  by (auto simp: distinct_map_set)

lemma dedup_fold:
  "keyed m \<Longrightarrow> snd ` set m \<subseteq> S \<Longrightarrow> set list \<subseteq> S \<Longrightarrow>
   keyed (foldl (\<lambda>m item. map_set (fst item) item m) m list)
   \<and> snd ` set (foldl (\<lambda>m item. map_set (fst item) item m) m list) \<subseteq> S"
proof (induction list arbitrary: m)
  case Nil
  then show ?case by simp
next
  case (Cons item list)
  have k: "keyed (map_set (fst item) item m)" by (rule keyed_map_set[OF Cons.prems(1)])
  have s: "snd ` set (map_set (fst item) item m) \<subseteq> S"
  proof
    fix v assume "v \<in> snd ` set (map_set (fst item) item m)"
    then obtain k where "(k, v) \<in> set (map_set (fst item) item m)" by auto
    with set_map_set[of "fst item" item m] have "(k, v) = (fst item, item) \<or> (k, v) \<in> set m"
      by blast
    with Cons.prems(2,3) show "v \<in> S" by force
  qed
  from Cons.IH[OF k s] Cons.prems(3) show ?case by simp
qed

lemma dedup_items_keyed: "keyed (dedup_items list)"
  and dedup_items_subset: "snd ` set (dedup_items list) \<subseteq> set list"
  using dedup_fold[of "[]" "set list" list] by (simp_all add: dedup_items_def keyed_def)


lemma remove_linked_filter:
  "remove_linked wofIds items = filter (\<lambda>p. Fin (fst p) \<notin> set wofIds) items"
  unfolding remove_linked_def
proof (induction wofIds arbitrary: items)
  case Nil
  show ?case by simp
next
  case (Cons a wofIds)
  have "filter (\<lambda>p. Fin (fst p) \<notin> set wofIds) (case a of Fin k \<Rightarrow> map_delete k items | _ \<Rightarrow> items)
        = filter (\<lambda>p. Fin (fst p) \<notin> set (a # wofIds)) items"
    by (cases a) (auto simp: map_delete_def case_prod_unfold intro: filter_cong)
  then show ?case by (simp add: Cons.IH)
qed


lemma candidates_gp_subset: "set (candidates_gp wofIds others list) \<subseteq> set list"
  using dedup_items_subset[of list]
  by (auto simp: candidates_gp_def remove_missing_def remove_linked_filter)

lemma candidates_gp_not_missing:
  "(i, other) \<in> set (candidates_gp wofIds others list) \<Longrightarrow> other \<notin> set others"
  by (auto simp: candidates_gp_def remove_missing_def)

lemma candidates_gp_not_linked:
  "(i, other) \<in> set (candidates_gp wofIds others list) \<Longrightarrow> Fin i \<notin> set wofIds"
proof -
  assume a: "(i, other) \<in> set (candidates_gp wofIds others list)"
  then obtain k where k: "(k, (i, other)) \<in> set (remove_linked wofIds (dedup_items list))"
    by (auto simp: candidates_gp_def remove_missing_def)
  then have "(k, (i, other)) \<in> set (dedup_items list)" and nk: "Fin k \<notin> set wofIds"
    by (auto simp: remove_linked_filter)
  with dedup_items_keyed[of list] have "i = k" by (auto simp: keyed_def)
  with nk show ?thesis by simp
qed

lemma group_nonempty: "g \<in> set (groups rows) \<Longrightarrow> g \<noteq> [] \<and> set g \<subseteq> set rows"
  by (auto simp: groups_def filter_empty_conv)

lemma bare_in_rows: "g \<in> set (groups rows) \<Longrightarrow> bare pick g \<in> set rows"
proof -
  assume "g \<in> set (groups rows)"
  then have ne: "g \<noteq> []" and sub: "set g \<subseteq> set rows" using group_nonempty by blast+
  from ne have "pick g mod length g < length g" by simp
  then have "g ! (pick g mod length g) \<in> set g" by (rule nth_mem)
  with sub show ?thesis by (auto simp: bare_def)
qed

lemma query_gp_row:
  assumes "(i, other) \<in> set (query_gp pick db)"
  shows "\<exists>s c. s \<in> set (spr db) \<and> c \<in> set (concordances db) \<and> spr_id s = i \<and> conc_id c = i
           \<and> other_id c = other \<and> other_source c = ''gp:id'' \<and> other \<notin> {-99, -1, 0}"
proof -
  from assms obtain g where g: "g \<in> set (groups (filter where_gp (joined db)))"
    and r: "(i, other) = (case bare pick g of (s, c) \<Rightarrow> (spr_id s, other_id c))"
    by (auto simp: query_gp_def)
  obtain s c where b: "bare pick g = (s, c)" by (cases "bare pick g")
  from bare_in_rows[OF g, of pick] b have "(s, c) \<in> set (filter where_gp (joined db))" by simp
  then have "where_gp (s, c)" and "(s, c) \<in> set (joined db)" by auto
  with r b show ?thesis by (auto simp: where_gp_def joined_def)
qed

lemma query_gn_row:
  assumes "(i, pt, other) \<in> set (query_gn pick db)"
  shows "\<exists>s c. s \<in> set (spr db) \<and> c \<in> set (concordances db) \<and> spr_id s = i \<and> conc_id c = i
           \<and> placetype s = pt
           \<and> other_id c = other \<and> other_source c = ''gn:id'' \<and> other \<notin> {-99, -1, 0}"
proof -
  from assms obtain g s c where g: "g \<in> set (groups (filter where_gn (joined db)))"
    and b: "bare pick g = (s, c)" and r: "(i, pt, other) = (spr_id s, placetype s, other_id c)"
    by (auto simp: query_gn_def) (metis prod.collapse)
  from bare_in_rows[OF g, of pick] b have "(s, c) \<in> set (filter where_gn (joined db))" by simp
  then have "where_gn (s, c)" and "(s, c) \<in> set (joined db)" by auto
  with r show ?thesis by (auto simp: where_gn_def joined_def)
qed

section \<open>The resilient transport: throttling and client errors\<close>

lemma find_name_found:
  "list_all is_obj ms \<Longrightarrow> list_ex (\<lambda>m. getprop m ''name'' = Inr (JStr n)) ms
   \<Longrightarrow> \<exists>m. find_name n ms = Inr m \<and> truthy m"
proof (induction ms)
  case Nil
  then show ?case by simp
next
  case (Cons m ms)
  from Cons.prems(1) obtain kvs where m: "m = JObj kvs" by (cases m) auto
  show ?case
  proof (cases "getprop m ''name'' = Inr (JStr n)")
    case True
    then show ?thesis using m by (simp add: bindE_def)
  next
    case False
    with Cons show ?thesis using m by (auto simp: bindE_def split: option.splits)
  qed
qed

lemma throttled_data:
  assumes "names_throttle data"
  shows "retryFetch_data data =
     ([ConsoleLog [Txt ''Request Throttled, Retrying in 60 seconds''], Timeout 60000], Inr (Retry 0))"
proof -
  from assms obtain ms where p: "path data [''error'', ''messages''] = Inr (JArr ms)"
    and a: "list_all is_obj ms"
    and e: "list_ex (\<lambda>m. getprop m ''name'' = Inr (JStr ''actionthrottledtext'')) ms"
    by (auto simp: names_throttle_def split: sum.splits jsval.splits)
  from p obtain err where d: "getprop data ''error'' = Inr err"
    and m: "getprop err ''messages'' = Inr (JArr ms)"
    by (auto simp: bindE_def split: sum.splits)
  from m have t: "truthy err" by (cases err) (auto split: if_splits)
  from find_name_found[OF a e] obtain x where
    f: "find_name ''actionthrottledtext'' ms = Inr x" and tx: "truthy x" by blast
  show ?thesis using d m t f tx by (simp add: retryFetch_data_def)
qed

text \<open>
  C5. Whenever a response is decoded (its status is ok) and its body is an error envelope
  that names the throttle condition, \<open>retryFetch\<close> logs the throttling, waits exactly
  \<open>60 * 1000\<close> milliseconds whatever \<open>iteration\<close> is, and then goes on as
  \<open>retryFetch(input, options)\<close> with \<open>iteration\<close> 0: the wait does not depend on the
  attempt counter and does not increment it.
\<close>

theorem throttle_wait_fixed:
  assumes "ok status" and "names_throttle data"
  shows "retryFetch input iteration (Resolved status (Some data) # rest) =
     (case retryFetch input 0 rest of
        (es, r, rest') \<Rightarrow>
          (CookieFetch input
             # ConsoleLog [Txt ''Request Throttled, Retrying in 60 seconds'']
             # Timeout (60 * 1000) # es, r, rest'))"
  using assms
  by (simp add: retryFetch_body_def retryFetch_try_def throttled_data split: prod.splits)

theorem throttle_wait_fixed_witness:
  "ok 200 \<and> names_throttle throttled_body \<and>
   retryFetch CsrfTokenReq 5 [Resolved 200 (Some throttled_body), Resolved 200 (Some (JObj []))] =
     ([CookieFetch CsrfTokenReq, ConsoleLog [Txt ''Request Throttled, Retrying in 60 seconds''],
       Timeout 60000, CookieFetch CsrfTokenReq], Ok (JObj []), [])"
proof -
  have a: "ok 200" by (simp add: ok_def)
  have b: "names_throttle throttled_body"
    by (simp add: names_throttle_def throttled_body_def bindE_def)
  have c: "retryFetch CsrfTokenReq 0 [Resolved 200 (Some (JObj []))] =
             ([CookieFetch CsrfTokenReq], Ok (JObj []), [])"
    by (simp add: retryFetch_body_def retryFetch_try_def retryFetch_data_def ok_def)
  show ?thesis
    using a b throttle_wait_fixed [OF a b, of CsrfTokenReq 5 "[Resolved 200 (Some (JObj []))]"] c
    by simp
qed

text \<open>
  C4. A response with status 404 and a JSON body: \<open>retryFetch\<close> does not return that body.
  The log line of the branch \<open>!response.ok\<close> throws a ReferenceError (\<open>repsonse\<close>), the
  \<open>catch\<close> block takes it for a request error, waits \<open>2 ^ iteration\<close> seconds and sends
  the request again; what is returned is the body of the next response.
\<close>

theorem retryFetch_retries_404:
  "retryFetch (CreateClaimReq (JStr ''Q42'') wofProperty 7 (JStr ''token'')) 0
     [Resolved 404 (Some (JObj [(''error'', JObj [(''code'', JStr ''badtoken'')])])),
      Resolved 200 (Some (JObj [(''success'', JNum 1)]))]
   = ([CookieFetch (CreateClaimReq (JStr ''Q42'') wofProperty 7 (JStr ''token'')),
       ConsoleLog [Txt ''Request Error: '', Msg ReferenceError],
       ConsoleLog [Txt ''Retrying in '', Dec 1, Txt '' seconds''],
       Timeout 1000,
       CookieFetch (CreateClaimReq (JStr ''Q42'') wofProperty 7 (JStr ''token''))],
      Ok (JObj [(''success'', JNum 1)]), [])"
  by (simp add: retryFetch_body_def retryFetch_try_def retryFetch_data_def ok_def
      request_error_line_def repsonse_statusText_def bindE_def catch_block_def retry_lines_def)

text \<open>The same for every response whose status is not ok, whatever the status and the body
  are: the body is not read, and the request is sent again after \<open>2 ^ iteration\<close> seconds.\<close>

lemma retryFetch_not_ok:
  assumes "\<not> ok status"
  shows "retryFetch input iteration (Resolved status body # rest) =
     (case retryFetch input (iteration + 1) rest of
        (es, r, rest') \<Rightarrow>
          (CookieFetch input
             # ConsoleLog [Txt ''Request Error: '', Msg ReferenceError]
             # ConsoleLog [Txt ''Retrying in '', Dec (int (2 ^ iteration)), Txt '' seconds'']
             # Timeout (2 ^ iteration * 1000) # es, r, rest'))"
  using assms
  by (simp add: retryFetch_body_def retryFetch_try_def request_error_line_def
      repsonse_statusText_def bindE_def catch_block_def retry_lines_def Let_def
      split: prod.splits)

section \<open>The search for a candidate\<close>

lemma no_entity_empty:
  assumes "path searchData [''query'', ''search''] = Inr (JArr [])"
  shows "no_entity searchData = Inr True"
proof -
  from assms obtain q where q: "getprop searchData ''query'' = Inr q"
    and s: "getprop q ''search'' = Inr (JArr [])"
    by (auto simp: bindE_def split: sum.splits)
  from s have "q \<noteq> JUndefined" by auto
  with q s show ?thesis by (simp add: no_entity_def bindE_def)
qed

lemma backoffFetch_no_cookie:
  assumes "backoffFetch input it nt = (es, r, rest)"
  shows "RetryFetch x \<notin> set es \<and> CookieFetch x \<notin> set es \<and> InsertMap e n \<notin> set es"
proof -
  from backoffFetch_events[of input it nt] assms
  have "\<forall>ev\<in>set es. ev = Fetch input \<or> quiet ev" by (simp add: list_all_iff)
  then show ?thesis by fastforce
qed

lemmas sample_bodies = login_token_body_def login_body_def contribs_body_def search_body_def
  token_body_def success_body_def ok200_def

section \<open>Placeholder foreign ids\<close>

text \<open>
  C10. In both variants no row that the candidate query returns has the foreign id -99, -1
  or 0. In every run, every search request is for a foreign id other than these, and every
  \<open>wbcreateclaim\<close> request carries the local id of a row that the query returned for
  one of the files, a row whose foreign id is none of these.
\<close>

theorem placeholder_ids_excluded:
  "(\<forall>row \<in> set (query_gp pick db). \<not> placeholder (snd row))
   \<and> (\<forall>row \<in> set (query_gn pick db). \<not> placeholder (snd (snd row)))
   \<and> list_all (event_ok (\<lambda>other. \<not> placeholder other)
         (\<lambda>i. \<exists>db \<in> set files. \<exists>other. (i, other) \<in> set (query_gp pick db) \<and> \<not> placeholder other)
         (\<lambda>_. True))
       (fst (main_gp pick files w))
   \<and> list_all (event_ok (\<lambda>other. \<not> placeholder other)
         (\<lambda>i. \<exists>db \<in> set files. \<exists>pt other. (i, pt, other) \<in> set (query_gn pick db) \<and> \<not> placeholder other)
         (\<lambda>_. True))
       (fst (main_gn placetypes pick files v))"
proof (intro conjI)
  show "\<forall>row \<in> set (query_gp pick db). \<not> placeholder (snd row)"
    using query_gp_row[of _ _ pick db] by (fastforce simp: placeholder_def)
  show "\<forall>row \<in> set (query_gn pick db). \<not> placeholder (snd (snd row))"
    using query_gn_row[of _ _ _ pick db] by (fastforce simp: placeholder_def)
  let ?A = "\<lambda>other. \<not> placeholder other"
  let ?B = "\<lambda>i. \<exists>db \<in> set files. \<exists>other. (i, other) \<in> set (query_gp pick db) \<and> \<not> placeholder other"
  have "triple (\<lambda>u. other_rows u = other_rows w) (main_gp pick files)
          (event_ok ?A ?B (\<lambda>_. True)) (\<lambda>_ _. True)"
  proof (rule triple_main_gp)
    fix wofIds list
    assume sub: "set list \<subseteq> (\<Union>db\<in>set files. set (query_gp pick db))"
    show "\<forall>(i, other)\<in>set (candidates_gp wofIds (other_rows w) list). ?A other \<and> ?B i"
    proof (clarify)
      fix i other
      assume "(i, other) \<in> set (candidates_gp wofIds (other_rows w) list)"
      with candidates_gp_subset[of wofIds "other_rows w" list] sub
      obtain db where db: "db \<in> set files" and r: "(i, other) \<in> set (query_gp pick db)" by blast
      from query_gp_row[OF r] have "\<not> placeholder other" by (auto simp: placeholder_def)
      with db r show "?A other \<and> ?B i" by blast
    qed
  qed simp
  then show "list_all (event_ok ?A ?B (\<lambda>_. True)) (fst (main_gp pick files w))"
    by (rule tripleD_events) simp
  let ?B' = "\<lambda>i. \<exists>db \<in> set files. \<exists>pt other. (i, pt, other) \<in> set (query_gn pick db) \<and> \<not> placeholder other"
  have "triple (\<lambda>_. True) (main_gn placetypes pick files)
          (event_ok ?A ?B' (\<lambda>_. True)) (\<lambda>_ _. True)"
  proof (rule triple_main_gn)
    fix list
    assume sub: "set list \<subseteq> (\<Union>db\<in>set files. set (query_gn pick db))"
    show "\<forall>(i, pt, other)\<in>set list. ?A other \<and> ?B' i"
    proof (clarify)
      fix i pt other
      assume "(i, pt, other) \<in> set list"
      with sub obtain db where db: "db \<in> set files" and r: "(i, pt, other) \<in> set (query_gn pick db)"
        by blast
      from query_gn_row[OF r] have "\<not> placeholder other" by (auto simp: placeholder_def)
      with db r show "?A other \<and> ?B' i" by blast
    qed
  qed simp
  then show "list_all (event_ok ?A ?B' (\<lambda>_. True)) (fst (main_gn placetypes pick files v))"
    by (rule tripleD_events) simp
qed

lemma sample_query_gp: "query_gp first_row sample_db = [(1, 101), (2, 102)]"
  by code_simp

lemma sample_query_gn: "query_gn first_row sample_db = [(1, ''locality'', 201)]"
  by code_simp

section \<open>Type validation\<close>







section \<open>A claim read without a claims map (part_000)\<close>

text \<open>
  C8, as amended (part_000). When the response of the claim read has no \<open>claims\<close> map, the
  step of the edit loop does not fail: it prints the whole response with \<open>console.error\<close>,
  sends no write for the entity and returns, so that the loop goes on with the next row.
\<close>

theorem absent_claims_skipped:
  "net w = Resolved status (Some data) # rest \<and> getprop data ''claims'' = Inr JUndefined \<longrightarrow>
   editItem_v2 csrftoken (i, other) w =
     ([Fetch (GetClaimsReq wofProperty other), ConsoleError [Val data]], Ok (), w\<lparr>net := rest\<rparr>)"
  by (simp add: editItem_v2_def bindIO_def await_json_def liftE_def returnIO_def emit_def)

theorem absent_claims_skipped_witness:
  "net no_claims_world = Resolved 200 (Some (JObj [])) # []
   \<and> getprop (JObj []) ''claims'' = Inr JUndefined
   \<and> editItem_v2 (JStr ''t1'') (1, JStr ''Q1'') no_claims_world =
     ([Fetch (GetClaimsReq wofProperty (JStr ''Q1'')), ConsoleError [Val (JObj [])]], Ok (),
      no_claims_world\<lparr>net := []\<rparr>)"
proof -
  have a: "net no_claims_world = Resolved 200 (Some (JObj [])) # []"
    by (simp add: no_claims_world_def ok200_def)
  have b: "getprop (JObj []) ''claims'' = Inr JUndefined" by simp
  from absent_claims_skipped[where w = no_claims_world and status = 200 and data = "JObj []"
      and rest = "[]" and csrftoken = "JStr ''t1''" and i = 1 and other = "JStr ''Q1''"] a b
  show ?thesis by simp
qed

text \<open>
  C8 as stated fails: a response without a \<open>claims\<close> map does not proceed as one with an empty
  \<open>claims\<close> map does. The first ends without a write, the second sends the write.
\<close>

theorem absent_claims_unlike_empty_claims:
  "editItem_v2 (JStr ''t1'') (1, JStr ''Q1'') no_claims_world =
     ([Fetch (GetClaimsReq ''P6766'' (JStr ''Q1'')), ConsoleError [Val (JObj [])]],
      Ok (), \<lparr>net = [], map_rows = [], other_rows = []\<rparr>)
   \<and> editItem_v2 (JStr ''t1'') (1, JStr ''Q1'') empty_claims_world =
     ([Fetch (GetClaimsReq ''P6766'' (JStr ''Q1'')),
       ConsoleLog [Txt ''Editing '', Val (JStr ''Q1''), Txt '' start''],
       RetryFetch (CreateClaimReq (JStr ''Q1'') ''P6766'' 1 (JStr ''t1'')),
       CookieFetch (CreateClaimReq (JStr ''Q1'') ''P6766'' 1 (JStr ''t1'')),
       ConsoleLog [Txt ''Editing '', Val (JStr ''Q1''), Txt '' end'']],
      Ok (), \<lparr>net = [], map_rows = [], other_rows = []\<rparr>)"
  by code_simp

section \<open>index.js: the login result and the write token\<close>

text \<open>
  C3. index.js on a login response whose result is \<open>Failed\<close>: the run does not stop. It
  prints the result, then requests the write token, reads the claims of the first row and
  sends the write.
\<close>

theorem index_js_goes_on_after_refused_login:
  "main_v1 [[(1, JStr ''Q1'')]] refused_login_world =
    ([ConsoleLog [Txt ''Number of Wikidata items: '', Dec 1],
      CookieFetch LoginTokenReq, CookieFetch (LoginReq (JStr ''lt'')),
      ConsoleLog [Txt ''Login Result: '', Val (JStr ''Failed'')],
      CookieFetch CsrfTokenReq, Fetch (GetClaimsReq ''P6766'' (JStr ''Q1'')),
      ConsoleLog [Txt ''Editing '', Val (JStr ''Q1''), Txt '' start''],
      RetryFetch (CreateClaimReq (JStr ''Q1'') ''P6766'' 1 (JStr ''t1'')),
      CookieFetch (CreateClaimReq (JStr ''Q1'') ''P6766'' 1 (JStr ''t1'')),
      ConsoleLog [Txt ''Editing '', Val (JStr ''Q1''), Txt '' end'']],
     Ok (), \<lparr>net = [], map_rows = [], other_rows = []\<rparr>)"
  by code_simp

text \<open>
  C6. index.js on two rows that both need the write: the token is requested once, before
  the loop, and the two \<open>wbcreateclaim\<close> requests carry that same token \<open>t1\<close>.
\<close>

theorem index_js_reuses_token:
  "main_v1 [[(1, JStr ''Q1''), (2, JStr ''Q2'')]] two_rows_world =
    ([ConsoleLog [Txt ''Number of Wikidata items: '', Dec 2],
      CookieFetch LoginTokenReq, CookieFetch (LoginReq (JStr ''lt'')),
      ConsoleLog [Txt ''Login Result: '', Val (JStr ''Success'')],
      CookieFetch CsrfTokenReq, Fetch (GetClaimsReq ''P6766'' (JStr ''Q1'')),
      ConsoleLog [Txt ''Editing '', Val (JStr ''Q1''), Txt '' start''],
      RetryFetch (CreateClaimReq (JStr ''Q1'') ''P6766'' 1 (JStr ''t1'')),
      CookieFetch (CreateClaimReq (JStr ''Q1'') ''P6766'' 1 (JStr ''t1'')),
      ConsoleLog [Txt ''Editing '', Val (JStr ''Q1''), Txt '' end''],
      Fetch (GetClaimsReq ''P6766'' (JStr ''Q2'')),
      ConsoleLog [Txt ''Editing '', Val (JStr ''Q2''), Txt '' start''],
      RetryFetch (CreateClaimReq (JStr ''Q2'') ''P6766'' 2 (JStr ''t1'')),
      CookieFetch (CreateClaimReq (JStr ''Q2'') ''P6766'' 2 (JStr ''t1'')),
      ConsoleLog [Txt ''Editing '', Val (JStr ''Q2''), Txt '' end'']],
     Ok (), \<lparr>net = [], map_rows = [], other_rows = []\<rparr>)"
  by code_simp

text \<open>The other three variants stop at a refused login: \<open>login\<close> throws, and \<open>main\<close> ends
  with the events of \<open>login\<close> and nothing after them.\<close>

lemma login_refused:
  assumes "net w = Resolved s1 (Some d1) # Resolved s2 (Some d2) # rest"
    and "path d1 [''query'', ''tokens'', ''logintoken''] = Inr t"
    and "path d2 [''login'', ''result''] = Inr r" and "r \<noteq> JStr ''Success''"
  shows "login w = ([CookieFetch LoginTokenReq, CookieFetch (LoginReq t),
                     ConsoleLog [Txt ''Login Result: '', Val r]],
                    Throw (Error ''Login Failure''), w\<lparr>net := rest\<rparr>)"
  using assms
  by (simp add: login_def bindIO_def await_json_def liftE_def returnIO_def throwIO_def emit_def)

lemma refused_login_aborts:
  assumes "login w = (es, Throw e, w')"
  shows "main_gp pick files w = (es, Throw e, w')"
    and "main_gn placetypes pick files w = (es, Throw e, w')"
    and "main_v2 results w = (es, Throw e, w')"
  using assms by (simp_all add: main_gp_def main_gn_def main_v2_def bindIO_def)

section \<open>At most one write for a local id\<close>

lemma createClaim_calls_append [simp]:
  "createClaim_calls (xs @ ys) = createClaim_calls xs @ createClaim_calls ys"
  by (simp add: createClaim_calls_def)

lemma createClaim_calls_Nil [simp]: "createClaim_calls [] = []"
  by (simp add: createClaim_calls_def)

lemma createClaim_calls_Cons [simp]:
  "createClaim_calls (ev # es) = call_of ev @ createClaim_calls es"
  by (simp add: createClaim_calls_def)






















section \<open>The phases of a run\<close>

lemma bindIO_assoc: "bindIO (bindIO m f) g = bindIO m (\<lambda>x. bindIO (f x) g)"
  by (rule ext) (auto simp: bindIO_def split: prod.splits res.splits)

lemma main_gp_phases:
  "main_gp pick files =
     bindIO login (\<lambda>_.
     bindIO (emit (ConsoleLog [Txt ''Retreiving contributions''])) (\<lambda>_.
     bindIO (loadEdited True) (\<lambda>edited. after_history_gp pick files edited)))"
  by (simp add: main_gp_def after_history_gp_def backfill_gp_def edit_phase_gp_def[abs_def]
      bindIO_assoc)







section \<open>Writes and the contribution history\<close>


section \<open>Sample runs\<close>

lemma same_entity_run:
  "main_gp first_row [sample_db] same_entity_world =
   ([CookieFetch LoginTokenReq, CookieFetch (LoginReq (JStr ''lt'')),
     ConsoleLog [Txt ''Login Result: '', Val (JStr ''Success'')],
     ConsoleLog [Txt ''Retreiving contributions''],
     CookieFetch (UserContribsReq JNull),
     ConsoleLog [Txt ''Number of items edited previously: '', Dec 0],
     ConsoleLog [Txt ''Querying '', Val (JStr ''whosonfirst-data-latest.db''), Txt '' start''],
     ConsoleLog [Txt ''Querying '', Val (JStr ''whosonfirst-data-latest.db''), Txt '' end''],
     ConsoleLog [Txt ''Number of Wikidata items to edit: '', Dec 2],
     BackoffFetch (SearchReq ''P1281'' 101 ''P6766''),
     Fetch (SearchReq ''P1281'' 101 ''P6766''),
     ConsoleLog [Pct 1 2, Txt '' Editing '', Val (JStr ''Q1''), Txt '' start''],
     RetryFetch CsrfTokenReq, CookieFetch CsrfTokenReq,
     RetryFetch (CreateClaimReq (JStr ''Q1'') ''P6766'' 1 (JStr ''t1'')),
     CookieFetch (CreateClaimReq (JStr ''Q1'') ''P6766'' 1 (JStr ''t1'')),
     ConsoleLog [Pct 1 2, Txt '' Editing '', Val (JStr ''Q1''), Txt '' end''],
     BackoffFetch (SearchReq ''P1281'' 102 ''P6766''),
     Fetch (SearchReq ''P1281'' 102 ''P6766''),
     ConsoleLog [Pct 2 2, Txt '' Editing '', Val (JStr ''Q1''), Txt '' start''],
     RetryFetch CsrfTokenReq, CookieFetch CsrfTokenReq,
     RetryFetch (CreateClaimReq (JStr ''Q1'') ''P6766'' 2 (JStr ''t2'')),
     CookieFetch (CreateClaimReq (JStr ''Q1'') ''P6766'' 2 (JStr ''t2'')),
     ConsoleLog [Pct 2 2, Txt '' Editing '', Val (JStr ''Q1''), Txt '' end'']],
    Ok (), \<lparr>net = [], map_rows = [], other_rows = []\<rparr>)"
  by code_simp

lemma gn_run:
  "main_gn sample_placetypes first_row [sample_db] gn_world =
   ([CookieFetch LoginTokenReq, CookieFetch (LoginReq (JStr ''lt'')),
     ConsoleLog [Txt ''Login Result: '', Val (JStr ''Success'')],
     CookieFetch (UserContribsReq JNull),
     ConsoleLog [Txt ''Number of items edited previously: '', Dec 0],
     ConsoleLog [Txt ''Querying '', Val (JStr ''whosonfirst-data-latest.db''), Txt '' start''],
     ConsoleLog [Txt ''Querying '', Val (JStr ''whosonfirst-data-latest.db''), Txt '' end''],
     ConsoleLog [Txt ''Number of Wikidata items to edit: '', Dec 1],
     BackoffFetch (SearchReq ''P1566'' 201 ''P6766''),
     Fetch (SearchReq ''P1566'' 201 ''P6766''),
     BackoffFetch (GetClaimsReq ''P31'' (JStr ''Q64'')),
     Fetch (GetClaimsReq ''P31'' (JStr ''Q64'')),
     ConsoleLog [Txt ''Editing '', Val (JStr ''Q64''), Txt '' start''],
     RetryFetch CsrfTokenReq, CookieFetch CsrfTokenReq,
     RetryFetch (CreateClaimReq (JStr ''Q64'') ''P6766'' 1 (JStr ''t1'')),
     CookieFetch (CreateClaimReq (JStr ''Q64'') ''P6766'' 1 (JStr ''t1'')),
     ConsoleLog [Txt ''Editing '', Val (JStr ''Q64''), Txt '' end'']],
    Ok (), \<lparr>net = [], map_rows = [], other_rows = []\<rparr>)"
  by code_simp

theorem placeholder_ids_excluded_witness:
  "(1, 101) \<in> set (query_gp first_row sample_db) \<and> \<not> placeholder (snd (1 :: int, 101 :: int))
   \<and> (1, ''locality'', 201) \<in> set (query_gn first_row sample_db)
   \<and> \<not> placeholder (snd (snd (1 :: int, ''locality'', 201 :: int)))
   \<and> BackoffFetch (SearchReq ''P1281'' 101 ''P6766'')
        \<in> set (fst (main_gp first_row [sample_db] same_entity_world))
   \<and> BackoffFetch (SearchReq ''P1566'' 201 ''P6766'')
        \<in> set (fst (main_gn sample_placetypes first_row [sample_db] gn_world))
   \<and> (\<forall>p q. BackoffFetch (SearchReq p (-1) q)
        \<notin> set (fst (main_gp first_row [sample_db] same_entity_world)))
   \<and> (\<forall>p q. BackoffFetch (SearchReq p (-1) q)
        \<notin> set (fst (main_gn sample_placetypes first_row [sample_db] gn_world)))"
proof -
  note t = placeholder_ids_excluded[where pick = first_row and db = sample_db
      and files = "[sample_db]" and w = same_entity_world and placetypes = sample_placetypes
      and v = gn_world]
  have a: "(1, 101) \<in> set (query_gp first_row sample_db)" by (simp add: sample_query_gp)
  have b: "(1, ''locality'', 201) \<in> set (query_gn first_row sample_db)"
    by (simp add: sample_query_gn)
  from t a have a': "\<not> placeholder (snd (1 :: int, 101 :: int))" by blast
  from t b have b': "\<not> placeholder (snd (snd (1 :: int, ''locality'', 201 :: int)))" by blast
  have c: "BackoffFetch (SearchReq ''P1281'' 101 ''P6766'')
        \<in> set (fst (main_gp first_row [sample_db] same_entity_world))"
    by (simp add: same_entity_run)
  have d: "BackoffFetch (SearchReq ''P1566'' 201 ''P6766'')
        \<in> set (fst (main_gn sample_placetypes first_row [sample_db] gn_world))"
    by (simp add: gn_run)
  have p: "placeholder (-1)" by (simp add: placeholder_def)
  have e: "BackoffFetch (SearchReq p (-1) q)
        \<notin> set (fst (main_gp first_row [sample_db] same_entity_world))" for p q
  proof
    assume "BackoffFetch (SearchReq p (-1) q) \<in> set (fst (main_gp first_row [sample_db] same_entity_world))"
    with t have "event_ok (\<lambda>other. \<not> placeholder other)
         (\<lambda>i. \<exists>db \<in> set [sample_db]. \<exists>other. (i, other) \<in> set (query_gp first_row db) \<and> \<not> placeholder other)
         (\<lambda>_. True) (BackoffFetch (SearchReq p (-1) q))"
      unfolding list_all_iff by blast
    with p show False by simp
  qed
  have f: "BackoffFetch (SearchReq p (-1) q)
        \<notin> set (fst (main_gn sample_placetypes first_row [sample_db] gn_world))" for p q
  proof
    assume "BackoffFetch (SearchReq p (-1) q)
        \<in> set (fst (main_gn sample_placetypes first_row [sample_db] gn_world))"
    with t have "event_ok (\<lambda>other. \<not> placeholder other)
         (\<lambda>i. \<exists>db \<in> set [sample_db]. \<exists>pt other. (i, pt, other) \<in> set (query_gn first_row db) \<and> \<not> placeholder other)
         (\<lambda>_. True) (BackoffFetch (SearchReq p (-1) q))"
      unfolding list_all_iff by blast
    with p show False by simp
  qed
  from a a' b b' c d e f show ?thesis by blast
qed






section \<open>The negative cache across runs\<close>

lemma keeps_others_bind:
  assumes "keeps_others m" and "\<And>x. keeps_others (f x)"
  shows "keeps_others (bindIO m f)"
  unfolding keeps_others_def
proof (intro allI)
  fix w :: world
  obtain es r w' where m: "m w = (es, r, w')" by (cases "m w")
  from assms(1) have "set (other_rows w) \<subseteq> set (other_rows (snd (snd (m w))))
      \<and> (\<forall>n. InsertOther n \<in> set (fst (m w)) \<longrightarrow> n \<in> set (other_rows (snd (snd (m w)))))"
    unfolding keeps_others_def by blast
  with m have k: "set (other_rows w) \<subseteq> set (other_rows w')"
    and i: "\<And>n. InsertOther n \<in> set es \<Longrightarrow> n \<in> set (other_rows w')"
    by simp_all
  show "set (other_rows w) \<subseteq> set (other_rows (snd (snd (bindIO m f w))))
        \<and> (\<forall>n. InsertOther n \<in> set (fst (bindIO m f w)) \<longrightarrow>
               n \<in> set (other_rows (snd (snd (bindIO m f w)))))"
  proof (cases r)
    case (Ok x)
    obtain es' r' w'' where f: "f x w' = (es', r', w'')" by (cases "f x w'")
    from assms(2)[of x] have "set (other_rows w') \<subseteq> set (other_rows (snd (snd (f x w'))))
        \<and> (\<forall>n. InsertOther n \<in> set (fst (f x w')) \<longrightarrow>
               n \<in> set (other_rows (snd (snd (f x w')))))"
      unfolding keeps_others_def by blast
    with f have k': "set (other_rows w') \<subseteq> set (other_rows w'')"
      and i': "\<And>n. InsertOther n \<in> set es' \<Longrightarrow> n \<in> set (other_rows w'')"
      by simp_all
    have "bindIO m f w = (es @ es', r', w'')" using m Ok f by (simp add: bindIO_def)
    with k i k' i' show ?thesis by auto
  qed (use m k i in \<open>auto simp: bindIO_def\<close>)
qed

lemma keeps_others_log: "keeps_others (emit (ConsoleLog l))"
  and keeps_others_error: "keeps_others (emit (ConsoleError l))"
  and keeps_others_return: "keeps_others (returnIO x)"
  and keeps_others_throw: "keeps_others (throwIO e)"
  and keeps_others_insertOther: "keeps_others (insertOther n)"
  and keeps_others_insertMap: "keeps_others (insertMap entity d)"
  and keeps_others_select_map: "keeps_others select_map"
  and keeps_others_select_other: "keeps_others select_other"
  by (auto simp: keeps_others_def emit_def returnIO_def throwIO_def insertOther_def insertMap_def
      select_map_def select_other_def)

lemma keeps_others_liftE: "keeps_others (liftE m)"
  by (cases m) (simp_all add: liftE_def keeps_others_throw keeps_others_return)

lemma keeps_others_await_json: "keeps_others (await_json CookieFetch input)"
  by (auto simp: keeps_others_def await_json_def split: list.splits outcome.splits option.splits)

lemma keeps_others_call_retryFetch: "keeps_others (call_retryFetch input)"
  unfolding keeps_others_def
proof (intro allI)
  fix w :: world
  obtain es r n where c: "retryFetch input 0 (net w) = (es, r, n)"
    by (cases "retryFetch input 0 (net w)")
  from retryFetch_events[of input 0 "net w"] c
  have "\<forall>ev\<in>set es. ev = CookieFetch input \<or> quiet ev" by (simp add: list_all_iff)
  then have "\<And>k. InsertOther k \<notin> set es" by fastforce
  with c show "set (other_rows w) \<subseteq> set (other_rows (snd (snd (call_retryFetch input w))))
        \<and> (\<forall>n. InsertOther n \<in> set (fst (call_retryFetch input w)) \<longrightarrow>
               n \<in> set (other_rows (snd (snd (call_retryFetch input w)))))"
    by (simp add: call_retryFetch_def)
qed

lemma keeps_others_call_backoffFetch: "keeps_others (call_backoffFetch input)"
  unfolding keeps_others_def
proof (intro allI)
  fix w :: world
  obtain es r n where c: "backoffFetch input 0 (net w) = (es, r, n)"
    by (cases "backoffFetch input 0 (net w)")
  from backoffFetch_events[of input 0 "net w"] c
  have "\<forall>ev\<in>set es. ev = Fetch input \<or> quiet ev" by (simp add: list_all_iff)
  then have "\<And>k. InsertOther k \<notin> set es" by fastforce
  with c show "set (other_rows w) \<subseteq> set (other_rows (snd (snd (call_backoffFetch input w))))
        \<and> (\<forall>n. InsertOther n \<in> set (fst (call_backoffFetch input w)) \<longrightarrow>
               n \<in> set (other_rows (snd (snd (call_backoffFetch input w)))))"
    by (simp add: call_backoffFetch_def)
qed

lemma userContribs_requests:
  "list_all (\<lambda>ev. (\<exists>r. ev = CookieFetch r) \<or> quiet ev) (fst (userContribs v cont edited nt))"
proof (induction nt arbitrary: cont edited v)
  case Nil
  show ?case by simp
next
  case (Cons out nt)
  have IH: "\<And>v c e es r n. userContribs v c e nt = (es, r, n)
     \<Longrightarrow> list_all (\<lambda>ev. (\<exists>r. ev = CookieFetch r) \<or> quiet ev) es"
    using Cons by (metis fst_conv)
  show ?case
    by (auto simp: Let_def dest: IH split: outcome.splits option.splits sum.splits prod.splits)
qed

lemma keeps_others_loadEdited: "keeps_others (loadEdited v)"
  unfolding keeps_others_def
proof (intro allI)
  fix w :: world
  obtain es r n where c: "userContribs v JNull [] (net w) = (es, r, n)"
    by (cases "userContribs v JNull [] (net w)")
  from userContribs_requests[of v JNull "[]" "net w"] c
  have "\<forall>ev\<in>set es. (\<exists>r. ev = CookieFetch r) \<or> quiet ev" by (simp add: list_all_iff)
  then have "\<And>k. InsertOther k \<notin> set es" by fastforce
  with c show "set (other_rows w) \<subseteq> set (other_rows (snd (snd (loadEdited v w))))
        \<and> (\<forall>n. InsertOther n \<in> set (fst (loadEdited v w)) \<longrightarrow>
               n \<in> set (other_rows (snd (snd (loadEdited v w)))))"
    by (simp add: loadEdited_def)
qed

lemma keeps_others_foldIO:
  assumes "\<And>s x. keeps_others (body s x)"
  shows "keeps_others (foldIO body s xs)"
proof (induction xs arbitrary: s)
  case Nil
  show ?case by (simp add: keeps_others_return)
next
  case (Cons x xs)
  show ?case by (simp, intro keeps_others_bind assms Cons)
qed

lemma keeps_others_login: "keeps_others login"
  unfolding login_def
  by (intro keeps_others_bind keeps_others_await_json keeps_others_liftE keeps_others_log)
     (auto intro: keeps_others_throw keeps_others_return)

lemma keeps_others_createClaim: "keeps_others (createClaim e i)"
  unfolding createClaim_def getToken_def
  by (intro keeps_others_bind keeps_others_call_retryFetch keeps_others_liftE keeps_others_return)

lemma keeps_others_backfillClaim: "keeps_others (backfillClaim e ids c)"
proof -
  have "keeps_others (case v of None \<Rightarrow> returnIO ids
          | Some val \<Rightarrow> let wofId = parseInt val
                        in bindIO (insertMap e wofId) (\<lambda>_. returnIO (add_num ids wofId)))" for v
    by (cases v)
       (auto simp: Let_def intro!: keeps_others_bind keeps_others_insertMap keeps_others_return)
  then show ?thesis
    unfolding backfillClaim_def by (intro keeps_others_bind keeps_others_liftE)
qed

lemma keeps_others_backfill_gp: "keeps_others (backfill_gp edited)"
  unfolding backfill_gp_def backfillEntity_def[abs_def]
  by (intro keeps_others_bind keeps_others_select_map keeps_others_foldIO keeps_others_log
      keeps_others_call_retryFetch keeps_others_backfillClaim)

lemma keeps_others_query_files: "keeps_others (query_files q files)"
  unfolding query_files_def
  by (intro keeps_others_foldIO keeps_others_bind keeps_others_log keeps_others_return)

lemma keeps_others_editItem_gp: "keeps_others (editItem_gp edited sz n item)"
proof -
  obtain i other where item: "item = (i, other)" by (cases item)
  have rest: "keeps_others (if none then
         bindIO (emit (ConsoleLog l)) (\<lambda>_. insertOther other)
       else
         bindIO (liftE t) (\<lambda>entityId.
           if has edited entityId then emit (ConsoleLog (l1 entityId))
           else
             bindIO (emit (ConsoleLog (l2 entityId))) (\<lambda>_.
             bindIO (createClaim entityId i) (\<lambda>_. emit (ConsoleLog (l3 entityId))))))"
    for none l t l1 l2 l3
    by (auto intro!: keeps_others_bind keeps_others_log keeps_others_insertOther keeps_others_liftE
        keeps_others_createClaim)
  show ?thesis
    unfolding item editItem_gp_def prod.case
    by (intro keeps_others_bind keeps_others_call_backoffFetch keeps_others_liftE rest)
qed

lemma keeps_others_editLoop_gp: "keeps_others (editLoop_gp edited items)"
  unfolding editLoop_gp_def
  by (intro keeps_others_foldIO keeps_others_bind keeps_others_editItem_gp keeps_others_return)

lemma keeps_others_main_gp: "keeps_others (main_gp pick files)"
  unfolding main_gp_phases after_history_gp_def edit_phase_gp_def[abs_def]
  by (intro keeps_others_bind keeps_others_login keeps_others_log keeps_others_loadEdited
      keeps_others_backfill_gp keeps_others_query_files keeps_others_select_other
      keeps_others_return keeps_others_editLoop_gp)

lemma after_runs_keeps: "n \<in> set (other_rows w) \<Longrightarrow> n \<in> set (other_rows (after_runs runs w))"
proof (induction runs arbitrary: w)
  case Nil
  then show ?case by simp
next
  case (Cons run runs)
  obtain pick files remote where run: "run = (pick, files, remote)" by (cases run)
  from keeps_others_main_gp[of pick files] Cons.prems
  have "n \<in> set (other_rows (snd (snd (main_gp pick files (w\<lparr>net := remote\<rparr>)))))"
    unfolding keeps_others_def by (auto dest!: spec[of _ "w\<lparr>net := remote\<rparr>"])
  then show ?case unfolding run by (simp add: Cons.IH)
qed

lemma known_missing_not_searched:
  assumes n: "n \<in> set (other_rows w)"
  shows "BackoffFetch (SearchReq p n q) \<notin> set (fst (main_gp pick files w))
         \<and> Fetch (SearchReq p n q) \<notin> set (fst (main_gp pick files w))"
proof -
  have "triple (\<lambda>v. other_rows v = other_rows w) (main_gp pick files)
          (event_ok (\<lambda>m. m \<noteq> n) (\<lambda>_. True) (\<lambda>_. True)) (\<lambda>_ _. True)"
  proof (rule triple_main_gp)
    fix wofIds list
    show "\<forall>(i, other)\<in>set (candidates_gp wofIds (other_rows w) list). other \<noteq> n \<and> True"
      using n candidates_gp_not_missing by fastforce
  qed simp
  then have all: "list_all (event_ok (\<lambda>m. m \<noteq> n) (\<lambda>_. True) (\<lambda>_. True)) (fst (main_gp pick files w))"
    by (rule tripleD_events) simp
  show ?thesis
  proof (intro conjI notI)
    assume "BackoffFetch (SearchReq p n q) \<in> set (fst (main_gp pick files w))"
    with all have "event_ok (\<lambda>m. m \<noteq> n) (\<lambda>_. True) (\<lambda>_. True) (BackoffFetch (SearchReq p n q))"
      unfolding list_all_iff by blast
    then show False by simp
  next
    assume "Fetch (SearchReq p n q) \<in> set (fst (main_gp pick files w))"
    with all have "event_ok (\<lambda>m. m \<noteq> n) (\<lambda>_. True) (\<lambda>_. True) (Fetch (SearchReq p n q))"
      unfolding list_all_iff by blast
    then show False by simp
  qed
qed


text \<open>
  C7. (1) A foreign id that is in the table of the ids known to have no entity when a run
  starts is subtracted from the candidates, whatever the rows and the linked ids are, and
  the run issues no search request for it. (2) When the search for a candidate returns an
  empty list of hits, the edit loop issues the insert of the candidate's foreign id into
  that table, the id is in the table afterwards, and the candidate is left without any
  token request or write (no call of \<open>retryFetch\<close>, no \<open>cookieFetch\<close>). (3) A run removes
  nothing from the table, however it ends, and (4) every id for which it issues an insert
  is in the table when it ends. (5) So once an id is in the table, at the start of a run
  or by an insert of that run, no later run on that store issues a search request for it,
  whatever the gazetteer databases and the remote side of the later runs are.
\<close>

theorem negative_cache_respected:
  "(n \<in> set (other_rows w) \<longrightarrow>
      (\<forall>wofIds list. n \<notin> snd ` set (candidates_gp wofIds (other_rows w) list))
      \<and> (\<forall>p q. BackoffFetch (SearchReq p n q) \<notin> set (fst (main_gp pick files w))
               \<and> Fetch (SearchReq p n q) \<notin> set (fst (main_gp pick files w))))
   \<and> (backoffFetch (SearchReq otherProperty_gp other wofProperty) 0 (net v) = (es, Ok searchData, rest)
        \<and> path searchData [''query'', ''search''] = Inr (JArr []) \<longrightarrow>
      (\<exists>es' w'. editItem_gp edited sz k (i, other) v = (es', Ok (), w')
          \<and> InsertOther other \<in> set es' \<and> other \<in> set (other_rows w')
          \<and> (\<forall>r. RetryFetch r \<notin> set es' \<and> CookieFetch r \<notin> set es')))
   \<and> set (other_rows w) \<subseteq> set (other_rows (snd (snd (main_gp pick files w))))
   \<and> (InsertOther n \<in> set (fst (main_gp pick files w)) \<longrightarrow>
        n \<in> set (other_rows (snd (snd (main_gp pick files w)))))
   \<and> (n \<in> set (other_rows w) \<or> InsertOther n \<in> set (fst (main_gp pick files w)) \<longrightarrow>
        (\<forall>runs pick' files' remote p q.
            BackoffFetch (SearchReq p n q) \<notin> set (fst (main_gp pick' files'
                ((after_runs runs (snd (snd (main_gp pick files w))))\<lparr>net := remote\<rparr>)))
            \<and> Fetch (SearchReq p n q) \<notin> set (fst (main_gp pick' files'
                ((after_runs runs (snd (snd (main_gp pick files w))))\<lparr>net := remote\<rparr>)))))"
proof -
  have keep: "set (other_rows w) \<subseteq> set (other_rows (snd (snd (main_gp pick files w))))"
    and ins: "\<And>m. InsertOther m \<in> set (fst (main_gp pick files w))
                \<Longrightarrow> m \<in> set (other_rows (snd (snd (main_gp pick files w))))"
    using keeps_others_main_gp[of pick files] unfolding keeps_others_def by blast+
  have 1: "n \<in> set (other_rows w) \<longrightarrow>
      (\<forall>wofIds list. n \<notin> snd ` set (candidates_gp wofIds (other_rows w) list))
      \<and> (\<forall>p q. BackoffFetch (SearchReq p n q) \<notin> set (fst (main_gp pick files w))
               \<and> Fetch (SearchReq p n q) \<notin> set (fst (main_gp pick files w)))"
  proof (intro impI conjI allI)
    assume n: "n \<in> set (other_rows w)"
    fix wofIds list
    show "n \<notin> snd ` set (candidates_gp wofIds (other_rows w) list)"
      using n candidates_gp_not_missing by fastforce
  next
    assume n: "n \<in> set (other_rows w)"
    fix p q
    show "BackoffFetch (SearchReq p n q) \<notin> set (fst (main_gp pick files w))"
      and "Fetch (SearchReq p n q) \<notin> set (fst (main_gp pick files w))"
      using known_missing_not_searched[OF n] by blast+
  qed
  have 2: "backoffFetch (SearchReq otherProperty_gp other wofProperty) 0 (net v) = (es, Ok searchData, rest)
        \<and> path searchData [''query'', ''search''] = Inr (JArr []) \<longrightarrow>
      (\<exists>es' w'. editItem_gp edited sz k (i, other) v = (es', Ok (), w')
          \<and> InsertOther other \<in> set es' \<and> other \<in> set (other_rows w')
          \<and> (\<forall>r. RetryFetch r \<notin> set es' \<and> CookieFetch r \<notin> set es'))"
  proof
    assume a: "backoffFetch (SearchReq otherProperty_gp other wofProperty) 0 (net v) = (es, Ok searchData, rest)
        \<and> path searchData [''query'', ''search''] = Inr (JArr [])"
    then have b: "backoffFetch (SearchReq otherProperty_gp other wofProperty) 0 (net v) = (es, Ok searchData, rest)"
      and ne: "no_entity searchData = Inr True" by (simp_all add: no_entity_empty)
    let ?es = "BackoffFetch (SearchReq otherProperty_gp other wofProperty) # es
                @ [ConsoleLog [Pct k sz, Txt '' Skipping '', Dec i, Txt '' No Entity Found''], InsertOther other]"
    let ?w = "v\<lparr>net := rest,
                other_rows := (if other \<in> set (other_rows v) then other_rows v else other_rows v @ [other])\<rparr>"
    have run: "editItem_gp edited sz k (i, other) v = (?es, Ok (), ?w)"
      using b ne
      by (simp add: editItem_gp_def bindIO_def call_backoffFetch_def liftE_def returnIO_def
          emit_def insertOther_def)
    from backoffFetch_no_cookie[OF b]
    have "\<forall>r. RetryFetch r \<notin> set ?es \<and> CookieFetch r \<notin> set ?es" by simp
    moreover have "InsertOther other \<in> set ?es" and "other \<in> set (other_rows ?w)" by simp_all
    ultimately show "\<exists>es' w'. editItem_gp edited sz k (i, other) v = (es', Ok (), w')
            \<and> InsertOther other \<in> set es' \<and> other \<in> set (other_rows w')
            \<and> (\<forall>r. RetryFetch r \<notin> set es' \<and> CookieFetch r \<notin> set es')"
      using run by blast
  qed
  have 5: "n \<in> set (other_rows w) \<or> InsertOther n \<in> set (fst (main_gp pick files w)) \<longrightarrow>
        (\<forall>runs pick' files' remote p q.
            BackoffFetch (SearchReq p n q) \<notin> set (fst (main_gp pick' files'
                ((after_runs runs (snd (snd (main_gp pick files w))))\<lparr>net := remote\<rparr>)))
            \<and> Fetch (SearchReq p n q) \<notin> set (fst (main_gp pick' files'
                ((after_runs runs (snd (snd (main_gp pick files w))))\<lparr>net := remote\<rparr>))))"
  proof (intro impI allI)
    fix runs pick' files' remote p q
    assume "n \<in> set (other_rows w) \<or> InsertOther n \<in> set (fst (main_gp pick files w))"
    with keep ins have "n \<in> set (other_rows (snd (snd (main_gp pick files w))))" by blast
    then have "n \<in> set (other_rows (after_runs runs (snd (snd (main_gp pick files w)))))"
      by (rule after_runs_keeps)
    then have "n \<in> set (other_rows ((after_runs runs (snd (snd (main_gp pick files w))))\<lparr>net := remote\<rparr>))"
      by simp
    from known_missing_not_searched[OF this]
    show "BackoffFetch (SearchReq p n q) \<notin> set (fst (main_gp pick' files'
                ((after_runs runs (snd (snd (main_gp pick files w))))\<lparr>net := remote\<rparr>)))
            \<and> Fetch (SearchReq p n q) \<notin> set (fst (main_gp pick' files'
                ((after_runs runs (snd (snd (main_gp pick files w))))\<lparr>net := remote\<rparr>)))" .
  qed
  from 1 2 keep ins[of n] 5 show ?thesis by blast
qed

lemma first_run:
  "main_gp first_row [sample_db] first_run_world =
   ([CookieFetch LoginTokenReq, CookieFetch (LoginReq (JStr ''lt'')),
     ConsoleLog [Txt ''Login Result: '', Val (JStr ''Success'')],
     ConsoleLog [Txt ''Retreiving contributions''],
     CookieFetch (UserContribsReq JNull),
     ConsoleLog [Txt ''Number of items edited previously: '', Dec 0],
     ConsoleLog [Txt ''Querying '', Val (JStr ''whosonfirst-data-latest.db''), Txt '' start''],
     ConsoleLog [Txt ''Querying '', Val (JStr ''whosonfirst-data-latest.db''), Txt '' end''],
     ConsoleLog [Txt ''Number of Wikidata items to edit: '', Dec 2],
     BackoffFetch (SearchReq ''P1281'' 101 ''P6766''),
     Fetch (SearchReq ''P1281'' 101 ''P6766''),
     ConsoleLog [Pct 1 2, Txt '' Skipping '', Dec 1, Txt '' No Entity Found''],
     InsertOther 101,
     BackoffFetch (SearchReq ''P1281'' 102 ''P6766''),
     Fetch (SearchReq ''P1281'' 102 ''P6766''),
     ConsoleLog [Pct 2 2, Txt '' Skipping '', Dec 2, Txt '' No Entity Found''],
     InsertOther 102],
    Ok (), \<lparr>net = [], map_rows = [], other_rows = [101, 102]\<rparr>)"
  by code_simp

theorem negative_cache_respected_witness:
  "101 \<in> set (other_rows later_world)
   \<and> BackoffFetch (SearchReq otherProperty_gp 101 wofProperty)
        \<notin> set (fst (main_gp first_row [sample_db] later_world))
   \<and> backoffFetch (SearchReq otherProperty_gp 102 wofProperty) 0 (net zero_hit_world)
        = ([Fetch (SearchReq otherProperty_gp 102 wofProperty)], Ok (search_body []), [])
   \<and> path (search_body []) [''query'', ''search''] = Inr (JArr [])
   \<and> (\<exists>es' w'. editItem_gp [] 1 1 (2, 102) zero_hit_world = (es', Ok (), w')
          \<and> InsertOther 102 \<in> set es' \<and> 102 \<in> set (other_rows w')
          \<and> (\<forall>r. RetryFetch r \<notin> set es' \<and> CookieFetch r \<notin> set es'))
   \<and> InsertOther 101 \<in> set (fst (main_gp first_row [sample_db] first_run_world))
   \<and> other_rows (snd (snd (main_gp first_row [sample_db] first_run_world))) = [101, 102]
   \<and> 101 \<in> set (other_rows (snd (snd (main_gp first_row [sample_db] first_run_world))))
   \<and> (\<forall>p q. BackoffFetch (SearchReq p 101 q) \<notin> set (fst (main_gp first_row [sample_db]
          ((after_runs [(first_row, [sample_db], second_run_remote)]
              (snd (snd (main_gp first_row [sample_db] first_run_world))))
           \<lparr>net := second_run_remote\<rparr>))))"
proof -
  have a: "101 \<in> set (other_rows later_world)" by (simp add: later_world_def)
  have b: "backoffFetch (SearchReq otherProperty_gp 102 wofProperty) 0 (net zero_hit_world)
        = ([Fetch (SearchReq otherProperty_gp 102 wofProperty)], Ok (search_body []), [])"
    by (simp add: zero_hit_world_def backoffFetch_body_def backoffFetch_try_def ok_def sample_bodies)
  have c: "path (search_body []) [''query'', ''search''] = Inr (JArr [])"
    by (simp add: search_body_def bindE_def)
  from negative_cache_respected[where n = 101 and w = later_world and pick = first_row
      and files = "[sample_db]" and other = 102 and v = zero_hit_world
      and es = "[Fetch (SearchReq otherProperty_gp 102 wofProperty)]"
      and searchData = "search_body []" and rest = "[]" and edited = "[]" and sz = 1 and k = 1
      and i = 2] a b c
  have 1: "BackoffFetch (SearchReq otherProperty_gp 101 wofProperty)
        \<notin> set (fst (main_gp first_row [sample_db] later_world))"
    and 2: "\<exists>es' w'. editItem_gp [] 1 1 (2, 102) zero_hit_world = (es', Ok (), w')
          \<and> InsertOther 102 \<in> set es' \<and> 102 \<in> set (other_rows w')
          \<and> (\<forall>r. RetryFetch r \<notin> set es' \<and> CookieFetch r \<notin> set es')"
    by blast+
  have d: "InsertOther 101 \<in> set (fst (main_gp first_row [sample_db] first_run_world))"
    and e: "other_rows (snd (snd (main_gp first_row [sample_db] first_run_world))) = [101, 102]"
    by (simp_all add: first_run)
  note t = negative_cache_respected[where n = 101 and w = first_run_world and pick = first_row
      and files = "[sample_db]"]
  from t d have f: "101 \<in> set (other_rows (snd (snd (main_gp first_row [sample_db] first_run_world))))"
    by blast
  from t d have g: "\<forall>p q. BackoffFetch (SearchReq p 101 q) \<notin> set (fst (main_gp first_row [sample_db]
          ((after_runs [(first_row, [sample_db], second_run_remote)]
              (snd (snd (main_gp first_row [sample_db] first_run_world))))
           \<lparr>net := second_run_remote\<rparr>)))"
    by blast
  from a 1 b c 2 d e f g show ?thesis by blast
qed

section \<open>Link records\<close>


























end
